theory Spec2Isabelle
  imports Complex_Main "HOL-Library.Log_Nat"
begin

section \<open>Python strings\<close>

text \<open>
  A Python \<open>str\<close> is modelled as a \<open>string\<close> whose characters are the code points below
  256 (Latin-1).  \<open>lower_char\<close> is \<open>str.lower\<close> on one such code point: the ASCII capitals
  and the Latin-1 capitals \<open>0xC0..0xDE\<close> (without the multiplication sign \<open>0xD7\<close>) move up
  by 32, every other character stays.
\<close>

definition lower_char :: "char \<Rightarrow> char" where
  "lower_char c = (let n = (of_char c :: nat) in
     if (65 \<le> n \<and> n \<le> 90) \<or> (192 \<le> n \<and> n \<le> 222 \<and> n \<noteq> 215)
     then char_of (n + 32) else c)"

definition lower_str :: "string \<Rightarrow> string" where
  "lower_str s = map lower_char s"

text \<open>\<open>startswith t p\<close> is \<open>t.startswith(p)\<close>; \<open>contains p t\<close> is the operator \<open>p in t\<close>.\<close>

fun startswith :: "string \<Rightarrow> string \<Rightarrow> bool" where
  "startswith t [] = True"
| "startswith [] (p # ps) = False"
| "startswith (c # t) (p # ps) = (c = p \<and> startswith t ps)"

fun contains :: "string \<Rightarrow> string \<Rightarrow> bool" where
  "contains p [] = (p = [])"
| "contains p (c # t) = (startswith (c # t) p \<or> contains p t)"

section \<open>Python floats\<close>

text \<open>
  A Python \<open>float\<close> is an IEEE 754 binary64 number.  A finite one is written here as the
  rational it stands for; the sign of a zero is not kept, as \<open>==\<close> does not see it.
  \<open>to_double x\<close> is the double nearest to \<open>x\<close>, a tie going to the even significand: the
  significand has 53 bits and the unit in the last place is \<open>2 powi ulp_exp x\<close>, never
  below \<open>2 powi - 1074\<close>.  \<open>to_double\<close> leaves the exponent unbounded above; the overflow test
  is made where a value can become that large.
\<close>

definition round_half_even :: "rat \<Rightarrow> int" where
  "round_half_even y = (let f = \<lfloor>y\<rfloor>; d = y - of_int f in
     if d < 1/2 then f else if 1/2 < d then f + 1 else if even f then f else f + 1)"

text \<open>\<open>ilog2 x\<close> is the integer \<open>k\<close> with \<open>2 powi k \<le> x < 2 powi (k + 1)\<close>, for positive \<open>x\<close>.\<close>

definition ilog2 :: "rat \<Rightarrow> int" where
  "ilog2 x = (if 1 \<le> x then bitlen \<lfloor>x\<rfloor> - 1 else - bitlen (\<lceil>1 / x\<rceil> - 1))"

definition ulp_exp :: "rat \<Rightarrow> int" where
  "ulp_exp x = max (- 1074) (ilog2 \<bar>x\<bar> - 52)"

definition to_double :: "rat \<Rightarrow> rat" where
  "to_double x =
     (if x = 0 then 0
      else of_int (round_half_even (x / 2 powi ulp_exp x)) * 2 powi ulp_exp x)"

text \<open>
  Sum and product of two finite floats and the float of a count, where no overflow can
  happen: the counts of \<open>rule_based_score\<close> are lengths of Python lists.
\<close>

definition dadd :: "rat \<Rightarrow> rat \<Rightarrow> rat" where
  "dadd a b = to_double (a + b)"

definition dmul :: "rat \<Rightarrow> rat \<Rightarrow> rat" where
  "dmul a b = to_double (a * b)"

definition double_of_nat :: "nat \<Rightarrow> rat" where
  "double_of_nat n = to_double (of_nat n)"

text \<open>
  \<open>round3 x\<close> is the multiple of \<open>1/1000\<close> nearest to \<open>x\<close>, a tie going to the even one.
  \<open>round(x, 3)\<close> on a finite float takes this decimal of the float's exact value and then
  the double nearest to it.
\<close>

definition round3 :: "rat \<Rightarrow> rat" where
  "round3 x = of_int (round_half_even (x * 1000)) / 1000"

definition dround3 :: "rat \<Rightarrow> rat" where
  "dround3 x = to_double (round3 x)"

text \<open>
  A float that may also be an infinity or not a number.  \<open>round_double\<close> is the rounding of
  an arithmetic result, which overflows to an infinity from \<open>2 ^ 1024\<close> on.
  \<open>float_ge a b\<close> is \<open>a >= b\<close> and \<open>float_lt a b\<close> is \<open>a < b\<close>; both are false when an
  argument is not a number.
\<close>

datatype pyfloat = Finite rat | PosInf | NegInf | NaN

definition round_double :: "rat \<Rightarrow> pyfloat" where
  "round_double x =
     (let y = to_double x in
      if y = 0 then Finite 0
      else if 1024 \<le> ilog2 \<bar>y\<bar> then (if 0 < y then PosInf else NegInf)
      else Finite y)"

fun float_mul :: "pyfloat \<Rightarrow> pyfloat \<Rightarrow> pyfloat" where
  "float_mul NaN b = NaN"
| "float_mul a NaN = NaN"
| "float_mul (Finite a) (Finite b) = round_double (a * b)"
| "float_mul (Finite a) PosInf = (if a = 0 then NaN else if 0 < a then PosInf else NegInf)"
| "float_mul (Finite a) NegInf = (if a = 0 then NaN else if 0 < a then NegInf else PosInf)"
| "float_mul PosInf (Finite b) = (if b = 0 then NaN else if 0 < b then PosInf else NegInf)"
| "float_mul NegInf (Finite b) = (if b = 0 then NaN else if 0 < b then NegInf else PosInf)"
| "float_mul PosInf PosInf = PosInf"
| "float_mul PosInf NegInf = NegInf"
| "float_mul NegInf PosInf = NegInf"
| "float_mul NegInf NegInf = PosInf"

fun float_add :: "pyfloat \<Rightarrow> pyfloat \<Rightarrow> pyfloat" where
  "float_add NaN b = NaN"
| "float_add a NaN = NaN"
| "float_add (Finite a) (Finite b) = round_double (a + b)"
| "float_add (Finite a) PosInf = PosInf"
| "float_add (Finite a) NegInf = NegInf"
| "float_add PosInf (Finite b) = PosInf"
| "float_add NegInf (Finite b) = NegInf"
| "float_add PosInf PosInf = PosInf"
| "float_add PosInf NegInf = NaN"
| "float_add NegInf PosInf = NaN"
| "float_add NegInf NegInf = NegInf"

fun float_ge :: "pyfloat \<Rightarrow> pyfloat \<Rightarrow> bool" where
  "float_ge NaN b = False"
| "float_ge a NaN = False"
| "float_ge (Finite a) (Finite b) = (b \<le> a)"
| "float_ge PosInf b = True"
| "float_ge a NegInf = True"
| "float_ge a PosInf = False"
| "float_ge NegInf b = False"

fun float_lt :: "pyfloat \<Rightarrow> pyfloat \<Rightarrow> bool" where
  "float_lt NaN b = False"
| "float_lt a NaN = False"
| "float_lt (Finite a) (Finite b) = (a < b)"
| "float_lt PosInf b = False"
| "float_lt a NegInf = False"
| "float_lt a PosInf = True"
| "float_lt NegInf b = True"

text \<open>\<open>round(x, 3)\<close>: an infinity and not-a-number round to themselves.\<close>

fun float_round3 :: "pyfloat \<Rightarrow> pyfloat" where
  "float_round3 (Finite x) = Finite (dround3 x)"
| "float_round3 x = x"

section \<open>Configuration (config.py)\<close>

record keyword_set =
  high :: "string list"
  medium :: "string list"
  low :: "string list"

definition HIV_RISK_KEYWORDS :: keyword_set where
  \<open>HIV_RISK_KEYWORDS = \<lparr>
     high = [''unprotected'', ''multiple partners'', ''sti'', ''sexually transmitted'',
             ''injection drug'', ''needle sharing'', ''sex work'', ''recent exposure''],
     medium = [''partner'', ''condom'', ''test'', ''worried'', ''concerned'', ''symptoms''],
     low = [''healthy'', ''monogamous'', ''protected'', ''negative test'']\<rparr>\<close>

definition MENTAL_HEALTH_KEYWORDS :: keyword_set where
  \<open>MENTAL_HEALTH_KEYWORDS = \<lparr>
     high = [''suicide'', ''self-harm'', ''hopeless'', ''worthless'', ''can't go on'',
             ''death wish'', ''ending it'', ''severe depression'', ''psychosis''],
     medium = [''depressed'', ''anxious'', ''stressed'', ''worried'', ''can't sleep'',
               ''panic'', ''trauma'', ''abuse'', ''isolated'', ''crying''],
     low = [''concerned'', ''nervous'', ''tired'', ''overwhelmed'']\<rparr>\<close>

definition HIV_SYMPTOM_PATTERNS :: "string list" where
  \<open>HIV_SYMPTOM_PATTERNS =
     [''fever'', ''night sweats'', ''weight loss'', ''fatigue'', ''swollen glands'',
      ''rash'', ''sore throat'', ''muscle aches'', ''genital sores'', ''discharge'']\<close>

definition MH_SYMPTOM_PATTERNS :: "string list" where
  \<open>MH_SYMPTOM_PATTERNS =
     [''sad'', ''hopeless'', ''anxious'', ''panic'', ''can't focus'', ''irritable'',
      ''mood swings'', ''hearing voices'', ''paranoid'', ''flashbacks'']\<close>

section \<open>The keyword rule scorer (RiskScorer.rule_based_score)\<close>

record details =
  high_risk_matches :: "string list"
  medium_risk_matches :: "string list"
  low_risk_matches :: "string list"
  symptom_matches :: "string list"

text \<open>\<open>matches ps t\<close> is \<open>[kw for kw in ps if kw in t]\<close>, and \<open>count_matches ps t\<close> is
  \<open>sum(1 for kw in ps if kw in t)\<close>.\<close>

definition matches :: "string list \<Rightarrow> string \<Rightarrow> string list" where
  "matches ps t = filter (\<lambda>kw. contains kw t) ps"

definition count_matches :: "string list \<Rightarrow> string \<Rightarrow> nat" where
  "count_matches ps t = length (filter (\<lambda>kw. contains kw t) ps)"

text \<open>The function \<open>categorize\<close> local to \<open>hybrid_score\<close>.\<close>

definition categorize :: "pyfloat \<Rightarrow> string" where
  "categorize score =
     (if float_ge score (Finite (to_double 0.7)) then ''HIGH''
      else if float_ge score (Finite (to_double 0.4)) then ''MEDIUM''
      else ''LOW'')"

definition rule_based_score :: "string \<Rightarrow> keyword_set \<Rightarrow> string list \<Rightarrow> rat \<times> string \<times> details" where
  "rule_based_score text kws symptoms =
     (let text_lower = lower_str text;
          high_count = count_matches (high kws) text_lower;
          medium_count = count_matches (medium kws) text_lower;
          low_count = count_matches (low kws) text_lower;
          symptom_count = count_matches symptoms text_lower;
          dets = \<lparr>high_risk_matches = matches (high kws) text_lower,
                  medium_risk_matches = matches (medium kws) text_lower,
                  low_risk_matches = matches (low kws) text_lower,
                  symptom_matches = matches symptoms text_lower\<rparr>;
          score0 = to_double 0.0;
          score1 = (if high_count > 0
                    then dadd score0
                           (dadd (to_double 0.7)
                              (dmul (double_of_nat high_count) (to_double 0.1)))
                    else if medium_count > 0
                    then dadd score0
                           (dadd (to_double 0.4)
                              (dmul (double_of_nat medium_count) (to_double 0.05)))
                    else if low_count > 0
                    then dadd score0
                           (dadd (to_double 0.1)
                              (dmul (double_of_nat low_count) (to_double 0.02)))
                    else score0);
          score2 = (if symptom_count > 0
                    then dadd score1
                           (min (dmul (double_of_nat symptom_count) (to_double 0.1))
                                (to_double 0.3))
                    else score1);
          score = min score2 (to_double 1.0);
          category = (if score \<ge> to_double 0.7 then ''HIGH''
                      else if score \<ge> to_double 0.4 then ''MEDIUM'' else ''LOW'')
      in (score, category, dets))"

subsection \<open>The scoring policy in the specification's words\<close>

text \<open>\<open>occurs p t\<close>: the phrase \<open>p\<close> is a contiguous part of \<open>t\<close>.\<close>

definition occurs :: "string \<Rightarrow> string \<Rightarrow> bool" where
  "occurs p t = (\<exists>u v. t = u @ p @ v)"

text \<open>The number of different phrases of \<open>ps\<close> found in the lower-cased text.\<close>

definition distinct_matches :: "string list \<Rightarrow> string \<Rightarrow> nat" where
  "distinct_matches ps text = card {p \<in> set ps. occurs p (lower_str text)}"

text \<open>
  The tiered base, the capped symptom bonus and the clamp, from the match counts; the sums
  and products are those of floats.
\<close>

definition policy_score :: "nat \<Rightarrow> nat \<Rightarrow> nat \<Rightarrow> nat \<Rightarrow> rat" where
  "policy_score h m l s =
     min (to_double 1.0)
       (dadd (if 0 < h then dadd (to_double 0.7) (dmul (to_double 0.1) (double_of_nat h))
              else if 0 < m then dadd (to_double 0.4) (dmul (to_double 0.05) (double_of_nat m))
              else if 0 < l then dadd (to_double 0.1) (dmul (to_double 0.02) (double_of_nat l))
              else to_double 0.0)
             (min (dmul (to_double 0.1) (double_of_nat s)) (to_double 0.3)))"

section \<open>Chunking (data_loader.chunk_text)\<close>

text \<open>
  \<open>isspace\<close> is \<open>str.isspace\<close> on the code points below 256; \<open>split_ws\<close> is
  \<open>str.split()\<close> without arguments, which cuts at runs of white space and yields no empty
  word; \<open>join sep ws\<close> is \<open>sep.join(ws)\<close>.
\<close>

definition isspace :: "char \<Rightarrow> bool" where
  "isspace c = (let n = (of_char c :: nat) in
     (9 \<le> n \<and> n \<le> 13) \<or> (28 \<le> n \<and> n \<le> 32) \<or> n = 133 \<or> n = 160)"

fun split_acc :: "string \<Rightarrow> string \<Rightarrow> string list" where
  "split_acc [] w = (if w = [] then [] else [w])"
| "split_acc (c # cs) w =
     (if isspace c then (if w = [] then [] else [w]) @ split_acc cs []
      else split_acc cs (w @ [c]))"

definition split_ws :: "string \<Rightarrow> string list" where
  "split_ws s = split_acc s []"

fun join :: "string \<Rightarrow> string list \<Rightarrow> string" where
  "join sep [] = []"
| "join sep [w] = w"
| "join sep (w # v # ws) = w @ sep @ join sep (v # ws)"

text \<open>
  \<open>py_slice xs i j\<close> is the slice \<open>xs[i:j]\<close>: a negative bound counts from the end, and
  both bounds are clipped to the list.
\<close>

definition slice_index :: "nat \<Rightarrow> int \<Rightarrow> nat" where
  "slice_index n i = (if i < 0 then nat (max 0 (i + int n)) else min (nat i) n)"

definition py_slice :: "'a list \<Rightarrow> int \<Rightarrow> int \<Rightarrow> 'a list" where
  "py_slice xs i j =
     (let a = slice_index (length xs) i; b = slice_index (length xs) j
      in take (b - a) (drop a xs))"

text \<open>An exception is its class name and the text \<open>str(e)\<close>.\<close>

datatype exn = Exn (exn_class: string) (exn_str: string)

text \<open>
  \<open>py_range start stop step\<close> is \<open>range(start, stop, step)\<close> run to the end: it raises
  for a zero step, counts up for a positive and down for a negative one.
\<close>

function range_up :: "int \<Rightarrow> int \<Rightarrow> int \<Rightarrow> int list" where
  "range_up i stop step = (if 0 < step \<and> i < stop then i # range_up (i + step) stop step else [])"
  by pat_completeness auto
termination
  by (relation "measure (\<lambda>(i, stop, step). nat (stop - i))") auto

function range_down :: "int \<Rightarrow> int \<Rightarrow> int \<Rightarrow> int list" where
  "range_down i stop step =
     (if step < 0 \<and> stop < i then i # range_down (i + step) stop step else [])"
  by pat_completeness auto
termination
  by (relation "measure (\<lambda>(i, stop, step). nat (i - stop))") auto

definition py_range :: "int \<Rightarrow> int \<Rightarrow> int \<Rightarrow> exn + int list" where
  "py_range start stop step =
     (if step = 0 then Inl (Exn ''ValueError'' ''range() arg 3 must not be zero'')
      else if 0 < step then Inr (range_up start stop step)
      else Inr (range_down start stop step))"

text \<open>The body of the \<open>for\<close> loop of \<open>chunk_text\<close>, with \<open>chunks\<close> as the list built so far.\<close>

fun chunk_loop :: "string list \<Rightarrow> int \<Rightarrow> int list \<Rightarrow> string list \<Rightarrow> string list" where
  "chunk_loop words chunk_size [] chunks = chunks"
| "chunk_loop words chunk_size (i # is) chunks =
     (let chunk = join '' '' (py_slice words i (i + chunk_size))
      in chunk_loop words chunk_size is (if chunk \<noteq> [] then chunks @ [chunk] else chunks))"

definition chunk_text :: "string \<Rightarrow> int \<Rightarrow> int \<Rightarrow> exn + string list" where
  "chunk_text text chunk_size overlap =
     (let words = split_ws text in
      case py_range 0 (int (length words)) (chunk_size - overlap) of
        Inl e \<Rightarrow> Inl e
      | Inr indices \<Rightarrow> Inr (chunk_loop words chunk_size indices []))"

subsection \<open>Chunking in the specification's words\<close>

text \<open>
  The windows of \<open>W\<close> words that start at the multiples of \<open>step\<close> below the number of
  words; the last one may be shorter.  \<open>reassemble\<close> rebuilds the word sequence from the
  chunks: the first \<open>step\<close> words of every chunk but the last, and all words of the last.
  \<open>windows\<close> is the same list of windows by recursion on the rest of the words.
\<close>

definition word_windows :: "nat \<Rightarrow> nat \<Rightarrow> 'a list \<Rightarrow> 'a list list" where
  "word_windows W step xs =
     map (\<lambda>k. take W (drop (k * step) xs)) [0..<(length xs + step - 1) div step]"

fun reassemble :: "nat \<Rightarrow> string list \<Rightarrow> string list" where
  "reassemble step [] = []"
| "reassemble step [c] = split_ws c"
| "reassemble step (c # d # cs) = take step (split_ws c) @ reassemble step (d # cs)"


function windows :: "nat \<Rightarrow> nat \<Rightarrow> 'a list \<Rightarrow> 'a list list" where
  "windows W step xs =
     (if xs = [] \<or> step = 0 then [] else take W xs # windows W step (drop step xs))"
  by pat_completeness auto
termination
  by (relation "measure (\<lambda>(W, step, xs). length xs)") auto

declare windows.simps [simp del]
declare range_up.simps [simp del]
declare range_down.simps [simp del]

definition is_word :: "string \<Rightarrow> bool" where
  "is_word x = (x \<noteq> [] \<and> (\<forall>c \<in> set x. \<not> isspace c))"

section \<open>The risk model judge (RiskScorer.llm_based_score)\<close>

text \<open>
  A parsed JSON value.  An object keeps its members as a list of pairs; a key is looked up
  with \<open>map_of\<close>.  A number is an \<open>int\<close> or a \<open>float\<close>; \<open>json.loads\<close> also reads
  \<open>NaN\<close>, \<open>Infinity\<close> and \<open>-Infinity\<close>.
\<close>

datatype json =
    JNull
  | JBool bool
  | JInt int
  | JFloat pyfloat
  | JStr string
  | JArr "json list"
  | JObj "(string \<times> json) list"

text \<open>
  The library functions the code calls: \<open>json.loads\<close>, the substitution
  \<open>re.sub(r'^```json\s*|\s*```$', '', s, flags=re.MULTILINE)\<close>, and the text of a number
  inside an f-string.
\<close>

record pylib =
  json_loads :: "string \<Rightarrow> exn + json"
  re_sub_fences :: "string \<Rightarrow> string"
  str_float :: "pyfloat \<Rightarrow> string"

text \<open>
  The request of \<open>client.chat.completions.create\<close>, with the prompt as the content of its one
  user message.  A client answers with an exception or with
  \<open>response.choices[0].message.content\<close>, which is a string or \<open>None\<close>.  A scorer whose API
  key is empty has no client.
\<close>

record request =
  model :: string
  temperature :: rat
  max_tokens :: nat
  content :: string

type_synonym client = "request \<Rightarrow> exn + string option"

definition LLM_MODEL :: string where
  "LLM_MODEL = ''gpt-4.1''"

text \<open>\<open>strip s\<close> is \<open>s.strip()\<close>.\<close>

definition strip :: "string \<Rightarrow> string" where
  "strip s = rev (dropWhile isspace (rev (dropWhile isspace s)))"

definition llm_prompt :: "string \<Rightarrow> string \<Rightarrow> string" where
  \<open>llm_prompt risk_type conversation_text = join [CHR 0x0A] [
      ''You are a clinical risk assessment expert analyzing a conversation between an AI chatbot and a healthcare client.'',
      '''',
      ''Analyze the following conversation for '' @ risk_type @ '' RISK ASSESSMENT.'',
      '''',
      ''Conversation:'',
      conversation_text,
      '''',
      ''Provide a structured risk assessment in JSON format with:'',
      ''1. "score": A numerical score from 0.0 (no risk) to 1.0 (extreme risk)'',
      ''2. "category": Classification as "LOW", "MEDIUM", or "HIGH"'',
      ''3. "reasoning": Brief explanation of the assessment (2-3 sentences)'',
      ''4. "risk_factors": List of specific concerns identified'',
      ''5. "protective_factors": List of positive/protective elements identified'',
      ''6. "urgent_flags": Boolean indicating if immediate intervention needed'',
      '''',
      ''Consider:'',
      ''- For HIV: Sexual behavior, exposure risks, symptoms, partner status, prevention practices'',
      ''- For Mental Health: Mood indicators, self-harm mentions, functioning, support systems, trauma'',
      '''',
      ''Respond ONLY with valid JSON, no other text.'']\<close>

text \<open>The body of a \<open>try\<close> block around one completion: call, strip, remove fences, parse.\<close>

definition complete_json :: "pylib \<Rightarrow> client \<Rightarrow> request \<Rightarrow> exn + json" where
  "complete_json L c req =
     (case c req of
        Inl e \<Rightarrow> Inl e
      | Inr None \<Rightarrow>
          Inl (Exn ''AttributeError''
                 ([CHR 0x27] @ ''NoneType'' @ [CHR 0x27] @ '' object has no attribute ''
                    @ [CHR 0x27] @ ''strip'' @ [CHR 0x27]))
      | Inr (Some text) \<Rightarrow> json_loads L (re_sub_fences L (strip text)))"

definition llm_based_score :: "pylib \<Rightarrow> client option \<Rightarrow> string \<Rightarrow> string \<Rightarrow> json" where
  "llm_based_score L cl conversation_text risk_type =
     (case cl of
        None \<Rightarrow>
          JObj [(''score'', JFloat (Finite (to_double 0.0))),
                (''category'', JStr ''UNKNOWN''),
                (''reasoning'', JStr ''API key not configured''),
                (''risk_factors'', JArr []),
                (''protective_factors'', JArr [])]
      | Some c \<Rightarrow>
          (case complete_json L c
                  \<lparr>model = LLM_MODEL, temperature = to_double 0.3, max_tokens = 1000,
                   content = llm_prompt risk_type conversation_text\<rparr> of
             Inr result \<Rightarrow> result
           | Inl e \<Rightarrow>
               JObj [(''score'', JFloat (Finite (to_double 0.0))),
                     (''category'', JStr ''ERROR''),
                     (''reasoning'', JStr (''Analysis error: '' @ exn_str e)),
                     (''risk_factors'', JArr []),
                     (''protective_factors'', JArr []),
                     (''urgent_flags'', JBool False)]))"

section \<open>Score fusion (RiskScorer.hybrid_score)\<close>

record message =
  timestamp :: string
  role :: string
  message_text :: string

record conversation =
  messages :: "message list"
  full_text :: string
  user_text :: string
  message_count :: nat

record rule_part =
  rule_score :: rat
  rule_category :: string
  rule_details :: details

record risk_entry =
  final_score :: pyfloat
  final_category :: string
  rule_based :: rule_part
  llm_based :: json

record risk_assessment =
  hiv_risk :: risk_entry
  mental_health_risk :: risk_entry

text \<open>\<open>type_name v\<close> is \<open>type(v).__name__\<close>, and \<open>str_nat n\<close> is \<open>str(n)\<close>.\<close>

fun type_name :: "json \<Rightarrow> string" where
  "type_name JNull = ''NoneType''"
| "type_name (JBool b) = ''bool''"
| "type_name (JInt n) = ''int''"
| "type_name (JFloat x) = ''float''"
| "type_name (JStr s) = ''str''"
| "type_name (JArr js) = ''list''"
| "type_name (JObj kvs) = ''dict''"

definition quoted :: "string \<Rightarrow> string" where
  "quoted s = [CHR 0x27] @ s @ [CHR 0x27]"

function str_nat :: "nat \<Rightarrow> string" where
  "str_nat n =
     (if n < 10 then [char_of (48 + n)] else str_nat (n div 10) @ [char_of (48 + n mod 10)])"
  by pat_completeness auto
termination
  by (relation "measure (\<lambda>n. n)") auto

text \<open>
  \<open>dict_get d k v\<close> is \<open>d.get(k, v)\<close>, which only a dict has.  \<open>float_of_int n\<close> is the
  conversion of an \<open>int\<close> to a float, which raises for an \<open>int\<close> that rounds to
  \<open>2 ^ 1024\<close> or more.  \<open>times_float x r\<close> is \<open>x * r\<close> for a float \<open>r\<close>: a number is
  multiplied, \<open>True\<close> and \<open>False\<close> count as 1 and 0, anything else is a \<open>TypeError\<close>.
\<close>

fun dict_get :: "json \<Rightarrow> string \<Rightarrow> json \<Rightarrow> exn + json" where
  "dict_get (JObj kvs) k v = Inr (case map_of kvs k of Some x \<Rightarrow> x | None \<Rightarrow> v)"
| "dict_get d k v =
     Inl (Exn ''AttributeError''
            (quoted (type_name d) @ '' object has no attribute '' @ quoted ''get''))"

definition float_of_int :: "int \<Rightarrow> exn + pyfloat" where
  "float_of_int n =
     (let y = to_double (of_int n) in
      if y \<noteq> 0 \<and> 1024 \<le> ilog2 \<bar>y\<bar>
      then Inl (Exn ''OverflowError'' ''int too large to convert to float'')
      else Inr (Finite y))"

fun times_float :: "json \<Rightarrow> pyfloat \<Rightarrow> exn + pyfloat" where
  "times_float (JFloat x) r = Inr (float_mul x r)"
| "times_float (JInt n) r =
     (case float_of_int n of Inl e \<Rightarrow> Inl e | Inr x \<Rightarrow> Inr (float_mul x r))"
| "times_float (JBool b) r = Inr (float_mul (Finite (if b then 1 else 0)) r)"
| "times_float (JStr s) r =
     Inl (Exn ''TypeError''
            (''can'' @ [CHR 0x27] @ ''t multiply sequence by non-int of type '' @ quoted ''float''))"
| "times_float (JArr js) r =
     Inl (Exn ''TypeError''
            (''can'' @ [CHR 0x27] @ ''t multiply sequence by non-int of type '' @ quoted ''float''))"
| "times_float v r =
     Inl (Exn ''TypeError''
            (''unsupported operand type(s) for *: '' @ quoted (type_name v) @ '' and ''
               @ quoted ''float''))"

text \<open>\<open>weighted_llm llm\<close> is the term \<open>llm.get('score', 0) * 0.6\<close>.\<close>

definition weighted_llm :: "json \<Rightarrow> exn + pyfloat" where
  "weighted_llm llm =
     (case dict_get llm ''score'' (JInt 0) of
        Inl e \<Rightarrow> Inl e
      | Inr s \<Rightarrow> times_float s (Finite (to_double 0.6)))"

definition hybrid_score :: "pylib \<Rightarrow> client option \<Rightarrow> conversation \<Rightarrow> exn + risk_assessment" where
  "hybrid_score L cl conv =
     (let text = full_text conv;
          (hiv_rule_score, hiv_rule_cat, hiv_details) =
             rule_based_score text HIV_RISK_KEYWORDS HIV_SYMPTOM_PATTERNS;
          (mh_rule_score, mh_rule_cat, mh_details) =
             rule_based_score text MENTAL_HEALTH_KEYWORDS MH_SYMPTOM_PATTERNS;
          hiv_llm = llm_based_score L cl text ''HIV'';
          mh_llm = llm_based_score L cl text ''Mental Health''
      in case weighted_llm hiv_llm of
           Inl e \<Rightarrow> Inl e
         | Inr hiv_w \<Rightarrow>
             (case weighted_llm mh_llm of
                Inl e \<Rightarrow> Inl e
              | Inr mh_w \<Rightarrow>
                  (let hiv_final_score =
                         float_add (float_mul (Finite hiv_rule_score) (Finite (to_double 0.4)))
                           hiv_w;
                       mh_final_score =
                         float_add (float_mul (Finite mh_rule_score) (Finite (to_double 0.4)))
                           mh_w
                   in Inr \<lparr>hiv_risk =
                             \<lparr>final_score = float_round3 hiv_final_score,
                              final_category = categorize hiv_final_score,
                              rule_based = \<lparr>rule_score = dround3 hiv_rule_score,
                                            rule_category = hiv_rule_cat,
                                            rule_details = hiv_details\<rparr>,
                              llm_based = hiv_llm\<rparr>,
                           mental_health_risk =
                             \<lparr>final_score = float_round3 mh_final_score,
                              final_category = categorize mh_final_score,
                              rule_based = \<lparr>rule_score = dround3 mh_rule_score,
                                            rule_category = mh_rule_cat,
                                            rule_details = mh_details\<rparr>,
                              llm_based = mh_llm\<rparr>\<rparr>)))"

text \<open>
  The judge result's \<open>score\<close> field as the specification reads it: the float under
  \<open>score\<close>, an \<open>int\<close> there as the float it converts to, and 0 when the object has no
  such member.
\<close>

fun score_field :: "json \<Rightarrow> pyfloat option" where
  "score_field (JObj kvs) =
     (case map_of kvs ''score'' of
        None \<Rightarrow> Some (Finite 0)
      | Some (JFloat x) \<Rightarrow> Some x
      | Some (JInt n) \<Rightarrow> (case float_of_int n of Inl e \<Rightarrow> None | Inr x \<Rightarrow> Some x)
      | Some _ \<Rightarrow> None)"
| "score_field _ = None"

section \<open>The semantic retriever (RAGRecommender)\<close>

text \<open>
  The calls that leave the repository: \<open>guidelines_pdf\<close> is what
  \<open>load_guidelines_pdf(self.guidelines_path)\<close> returns or raises, \<open>encode\<close> is
  \<open>embedder.encode\<close> with the conversion to a float32 array, \<open>dimension\<close> is
  \<open>embeddings.shape[1]\<close>, \<open>new_index\<close> is \<open>faiss.IndexFlatL2\<close>, \<open>index_add\<close> is
  \<open>index.add\<close> and \<open>search\<close> is \<open>index.search\<close> read at \<open>indices[0]\<close>.
\<close>

record ('v, 'i) rag_lib =
  guidelines_pdf :: "exn + string"
  encode :: "string list \<Rightarrow> exn + 'v list"
  dimension :: "'v list \<Rightarrow> exn + nat"
  new_index :: "nat \<Rightarrow> exn + 'i"
  index_add :: "'i \<Rightarrow> 'v list \<Rightarrow> exn + 'i"
  search :: "'i \<Rightarrow> 'v \<Rightarrow> nat \<Rightarrow> exn + int list"

text \<open>The two attributes of a recommender that change: \<open>self.chunks\<close> and \<open>self.index\<close>.\<close>

record 'i recommender =
  rag_chunks :: "string list"
  rag_index :: "'i option"

definition fallback_guidelines :: string where
  \<open>fallback_guidelines = join [CHR 0x0A] [
      '''',
      ''        SOUTH AFRICAN NATIONAL DEPARTMENT OF HEALTH HIV GUIDELINES:'',
      ''        '',
      ''        HIV Testing: Universal testing recommended for all sexually active individuals. '',
      ''        Routine testing every 3-6 months for high-risk populations including sex workers, '',
      ''        MSM, people who inject drugs, and those with multiple partners.'',
      ''        '',
      ''        PrEP (Pre-Exposure Prophylaxis): Recommended for HIV-negative individuals at '',
      ''        substantial risk. Daily oral tenofovir-based PrEP reduces infection risk by >90%.'',
      ''        Eligible groups include serodiscordant couples, sex workers, MSM, and those '',
      ''        with recent STI diagnosis.'',
      ''        '',
      ''        PEP (Post-Exposure Prophylaxis): Must be initiated within 72 hours of potential'',
      ''        exposure. 28-day course of antiretroviral therapy. Available at all public facilities.'',
      ''        '',
      ''        STI Management: Syndromic management approach. Partner notification and treatment '',
      ''        essential. Regular screening for high-risk groups.'',
      ''        '',
      ''        MENTAL HEALTH GUIDELINES:'',
      ''        '',
      ''        Primary Mental Healthcare: Integration of mental health services into primary care.'',
      ''        PHC nurses trained to identify and manage common mental disorders.'',
      ''        '',
      ''        Depression/Anxiety: Counseling, psychosocial support, and medication where appropriate.'',
      ''        Referral to mental health specialists for moderate-severe cases.'',
      ''        '',
      ''        Crisis Intervention: Immediate assessment for suicidal ideation or psychosis.'',
      ''        24/7 crisis helplines available. Psychiatric emergency services at district hospitals.'',
      ''        '',
      ''        Community-Based Care: Home-based care teams, support groups, and peer counseling '',
      ''        programs. Family involvement encouraged.'',
      ''        '',
      ''        Integrated Care: Screening for mental health in HIV clinics and vice versa. '',
      ''        Holistic patient-centered approach addressing comorbidities.'',
      ''        '']\<close>

text \<open>\<open>py_index xs i\<close> is \<open>xs[i]\<close>: a negative index counts from the end.\<close>

definition py_index :: "'a list \<Rightarrow> int \<Rightarrow> exn + 'a" where
  "py_index xs i =
     (if 0 \<le> i \<and> i < int (length xs) then Inr (xs ! nat i)
      else if i < 0 \<and> - int (length xs) \<le> i then Inr (xs ! nat (int (length xs) + i))
      else Inl (Exn ''IndexError'' ''list index out of range''))"

fun index_all :: "'a list \<Rightarrow> int list \<Rightarrow> exn + 'a list" where
  "index_all xs [] = Inr []"
| "index_all xs (i # is) =
     (case py_index xs i of
        Inl e \<Rightarrow> Inl e
      | Inr x \<Rightarrow> (case index_all xs is of Inl e \<Rightarrow> Inl e | Inr ys \<Rightarrow> Inr (x # ys)))"

definition build_index ::
  "('v, 'i) rag_lib \<Rightarrow> 'i recommender \<Rightarrow> (exn + nat) \<times> 'i recommender" where
  "build_index R st =
     (case guidelines_pdf R of
        Inl e \<Rightarrow> (Inl e, st)
      | Inr loaded \<Rightarrow>
          (let guidelines_text = (if loaded = [] then fallback_guidelines else loaded) in
           case chunk_text guidelines_text 400 50 of
             Inl e \<Rightarrow> (Inl e, st)
           | Inr cs \<Rightarrow>
               (let st1 = st\<lparr>rag_chunks := cs\<rparr> in
                case encode R cs of
                  Inl e \<Rightarrow> (Inl e, st1)
                | Inr embeddings \<Rightarrow>
                    (case dimension R embeddings of
                       Inl e \<Rightarrow> (Inl e, st1)
                     | Inr d \<Rightarrow>
                         (case new_index R d of
                            Inl e \<Rightarrow> (Inl e, st1)
                          | Inr idx \<Rightarrow>
                              (case index_add R idx embeddings of
                                 Inl e \<Rightarrow> (Inl e, st1\<lparr>rag_index := Some idx\<rparr>)
                               | Inr idx' \<Rightarrow>
                                   (Inr (length cs), st1\<lparr>rag_index := Some idx'\<rparr>)))))))"

definition search_chunks ::
  "('v, 'i) rag_lib \<Rightarrow> 'i recommender \<Rightarrow> string \<Rightarrow> nat \<Rightarrow> exn + string list" where
  "search_chunks R st query top_k =
     (case encode R [query] of
        Inl e \<Rightarrow> Inl e
      | Inr qs \<Rightarrow>
          (case py_index qs 0 of
             Inl e \<Rightarrow> Inl e
           | Inr query_embedding \<Rightarrow>
               (case rag_index st of
                  None \<Rightarrow>
                    Inl (Exn ''AttributeError''
                          ([CHR 0x27] @ ''NoneType'' @ [CHR 0x27] @ '' object has no attribute ''
                             @ [CHR 0x27] @ ''search'' @ [CHR 0x27]))
                | Some idx \<Rightarrow>
                    (case search R idx query_embedding top_k of
                       Inl e \<Rightarrow> Inl e
                     | Inr indices \<Rightarrow> index_all (rag_chunks st) indices))))"

definition retrieve_relevant_chunks ::
  "('v, 'i) rag_lib \<Rightarrow> 'i recommender \<Rightarrow> string \<Rightarrow> nat
     \<Rightarrow> (exn + string list) \<times> 'i recommender" where
  "retrieve_relevant_chunks R st query top_k =
     (case rag_index st of
        Some idx \<Rightarrow> (search_chunks R st query top_k, st)
      | None \<Rightarrow>
          (case build_index R st of
             (Inl e, st1) \<Rightarrow> (Inl e, st1)
           | (Inr n, st1) \<Rightarrow> (search_chunks R st1 query top_k, st1)))"

section \<open>The recommendation generator (RAGRecommender.generate_recommendation)\<close>

text \<open>
  \<open>str_items v\<close> is what \<open>', '.join(v)\<close> iterates over: the strings of a list, the characters
  of a string, the keys of a dict; a list with another kind of item, and a value that is not
  iterable, raise \<open>TypeError\<close>.  \<open>the_strs i js\<close> collects the strings from position \<open>i\<close> on.
\<close>

fun the_strs :: "nat \<Rightarrow> json list \<Rightarrow> exn + string list" where
  "the_strs i [] = Inr []"
| "the_strs i (JStr s # js) =
     (case the_strs (Suc i) js of Inl e \<Rightarrow> Inl e | Inr ss \<Rightarrow> Inr (s # ss))"
| "the_strs i (j # js) =
     Inl (Exn ''TypeError''
            (''sequence item '' @ str_nat i @ '': expected str instance, '' @ type_name j
               @ '' found''))"

fun str_items :: "json \<Rightarrow> exn + string list" where
  "str_items (JArr js) = the_strs 0 js"
| "str_items (JStr s) = Inr (map (\<lambda>c. [c]) s)"
| "str_items (JObj kvs) = Inr (map fst kvs)"
| "str_items v = Inl (Exn ''TypeError'' ''can only join an iterable'')"

text \<open>\<open>', '.join(llm.get('risk_factors', ['None identified']))\<close>\<close>

definition join_factors :: "json \<Rightarrow> exn + string" where
  "join_factors llm =
     (case dict_get llm ''risk_factors'' (JArr [JStr ''None identified'']) of
        Inl e \<Rightarrow> Inl e
      | Inr v \<Rightarrow> (case str_items v of Inl e \<Rightarrow> Inl e | Inr ss \<Rightarrow> Inr (join '', '' ss)))"

definition rag_prompt ::
  "pylib \<Rightarrow> risk_assessment \<Rightarrow> string \<Rightarrow> string \<Rightarrow> string list \<Rightarrow> string list \<Rightarrow> string
     \<Rightarrow> string" where
  \<open>rag_prompt L ra hiv_factors mh_factors hiv_context mh_context conversation_text =
     join [CHR 0x0A] [
      ''You are a South African healthcare professional providing evidence-based recommendations according to NDOH guidelines.'',
      '''',
      ''RISK ASSESSMENT SUMMARY:'',
      ''- HIV Risk: '' @ final_category (hiv_risk ra) @ '' (Score: '' @ str_float L (final_score (hiv_risk ra)) @ '')'',
      ''- Mental Health Risk: '' @ final_category (mental_health_risk ra) @ '' (Score: '' @ str_float L (final_score (mental_health_risk ra)) @ '')'',
      '''',
      ''HIV RISK FACTORS:'',
      hiv_factors,
      '''',
      ''MENTAL HEALTH CONCERNS:'',
      mh_factors,
      '''',
      ''RELEVANT NDOH GUIDELINES - HIV:'',
      join [CHR 0x0A] hiv_context,
      '''',
      ''RELEVANT NDOH GUIDELINES - MENTAL HEALTH:'',
      join [CHR 0x0A] mh_context,
      '''',
      ''CONVERSATION CONTEXT:'',
      take 800 conversation_text @ ''...'',
      '''',
      ''Provide:'',
      ''1. HIV RECOMMENDATION: Specific evidence-based actions (testing, PrEP, counseling) per SA guidelines'',
      ''2. MENTAL HEALTH RECOMMENDATION: Appropriate interventions and referrals per SA guidelines  '',
      ''3. INTEGRATED TREATMENT PLAN: Holistic 3-step action plan addressing both concerns'',
      '''',
      ''Format as JSON:'',
      ''{'',
      ''  "hiv_recommendation": "...",'',
      ''  "mh_recommendation": "...",'',
      ''  "integrated_plan": "..."'',
      ''}'']\<close>

definition rag_request ::
  "pylib \<Rightarrow> risk_assessment \<Rightarrow> string \<Rightarrow> string \<Rightarrow> string list \<Rightarrow> string list \<Rightarrow> string
     \<Rightarrow> request" where
  "rag_request L ra hiv_factors mh_factors hiv_context mh_context conversation_text =
     \<lparr>model = LLM_MODEL, temperature = to_double 0.5, max_tokens = 1500,
      content = rag_prompt L ra hiv_factors mh_factors hiv_context mh_context
                  conversation_text\<rparr>"

definition generate_recommendation ::
  "pylib \<Rightarrow> ('v, 'i) rag_lib \<Rightarrow> client option \<Rightarrow> 'i recommender \<Rightarrow> risk_assessment \<Rightarrow> string
     \<Rightarrow> (exn + json) \<times> 'i recommender" where
  "generate_recommendation L R cl st ra conversation_text =
     (case cl of
        None \<Rightarrow>
          (Inr (JObj [(''hiv_recommendation'', JStr ''API not configured''),
                      (''mh_recommendation'', JStr ''API not configured''),
                      (''integrated_plan'', JStr ''API not configured'')]), st)
      | Some c \<Rightarrow>
          (let hiv_query = ''HIV risk '' @ final_category (hiv_risk ra)
                             @ '' testing PrEP treatment'';
               mh_query = ''mental health '' @ final_category (mental_health_risk ra)
                            @ '' counseling treatment''
           in case retrieve_relevant_chunks R st hiv_query 3 of
                (Inl e, st1) \<Rightarrow> (Inl e, st1)
              | (Inr hiv_context, st1) \<Rightarrow>
                  (case retrieve_relevant_chunks R st1 mh_query 3 of
                     (Inl e, st2) \<Rightarrow> (Inl e, st2)
                   | (Inr mh_context, st2) \<Rightarrow>
                       (case join_factors (llm_based (hiv_risk ra)) of
                          Inl e \<Rightarrow> (Inl e, st2)
                        | Inr hiv_factors \<Rightarrow>
                            (case join_factors (llm_based (mental_health_risk ra)) of
                               Inl e \<Rightarrow> (Inl e, st2)
                             | Inr mh_factors \<Rightarrow>
                                 (case complete_json L c
                                         (rag_request L ra hiv_factors mh_factors hiv_context
                                            mh_context conversation_text) of
                                    Inr recommendations \<Rightarrow> (Inr recommendations, st2)
                                  | Inl e \<Rightarrow>
                                      (Inr (JObj
                                         [(''hiv_recommendation'',
                                           JStr (''Error generating recommendation: ''
                                                   @ exn_str e)),
                                          (''mh_recommendation'',
                                           JStr (''Error generating recommendation: ''
                                                   @ exn_str e)),
                                          (''integrated_plan'',
                                           JStr (''Error generating plan: '' @ exn_str e))]),
                                       st2)))))))"

section \<open>The analyzer (ConversationAnalyzer.analyze_conversation)\<close>

record conversation_echo =
  echo_message_count :: nat
  text_preview :: string

record analysis =
  conversation_part :: conversation_echo
  risk_assessment_part :: risk_assessment
  recommendations :: json

definition analyze_conversation ::
  "pylib \<Rightarrow> ('v, 'i) rag_lib \<Rightarrow> client option \<Rightarrow> 'i recommender \<Rightarrow> conversation
     \<Rightarrow> (exn + analysis) \<times> 'i recommender" where
  "analyze_conversation L R cl st conv =
     (case hybrid_score L cl conv of
        Inl e \<Rightarrow> (Inl e, st)
      | Inr risk_scores \<Rightarrow>
          (case generate_recommendation L R cl st risk_scores (full_text conv) of
             (Inl e, st1) \<Rightarrow> (Inl e, st1)
           | (Inr recs, st1) \<Rightarrow>
               (Inr \<lparr>conversation_part =
                       \<lparr>echo_message_count = message_count conv,
                        text_preview = take 200 (full_text conv) @ ''...''\<rparr>,
                     risk_assessment_part = risk_scores,
                     recommendations = recs\<rparr>, st1)))"


section \<open>Readings of results and sample inputs\<close>

text \<open>The keys of a result dictionary, in order.\<close>

definition json_keys :: "json \<Rightarrow> string list" where
  "json_keys j = (case j of JObj kvs \<Rightarrow> map fst kvs | _ \<Rightarrow> [])"

text \<open>The reported pair of one domain.\<close>

definition score_and_category :: "risk_entry \<Rightarrow> pyfloat \<times> string" where
  "score_and_category e = (final_score e, final_category e)"

text \<open>
  A library instance for concrete runs: \<open>json.loads\<close> on three one-member objects (any other
  text is rejected as \<open>json.loads\<close> rejects text that is not JSON), no fence to remove.
  \<open>fixed_reply s\<close> is a client that answers every request with \<open>s\<close>.
\<close>

definition sample_lib :: pylib where
  \<open>sample_lib = \<lparr>
     json_loads = (\<lambda>s.
       if s = ''{"score": 0.6327}''
       then Inr (JObj [(''score'', JFloat (Finite (to_double 0.6327)))])
       else if s = ''{"score": 0.634}''
       then Inr (JObj [(''score'', JFloat (Finite (to_double 0.634)))])
       else if s = ''{"score": 0.0125}''
       then Inr (JObj [(''score'', JFloat (Finite (to_double 0.0125)))])
       else Inl (Exn ''JSONDecodeError'' ''Expecting value: line 1 column 1 (char 0)'')),
     re_sub_fences = (\<lambda>s. s),
     str_float = (\<lambda>x. ''0.0'')\<rparr>\<close>

definition sample_conversation :: "string \<Rightarrow> conversation" where
  "sample_conversation t =
     \<lparr>messages = [\<lparr>timestamp = ''2024-01-01 10:00'', role = ''User'', message_text = t\<rparr>],
      full_text = t, user_text = t, message_count = 1\<rparr>"

definition fixed_reply :: "string \<Rightarrow> client" where
  "fixed_reply s = (\<lambda>req. Inr (Some s))"

text \<open>
  A retriever for concrete runs: embeddings are word lengths, every search answers chunk 0;
  \<open>failing_rag\<close> is the same with an embedder that raises.  \<open>built_recommender\<close> has its
  index built, as after \<open>ConversationAnalyzer.__init__\<close>.
\<close>

definition sample_rag :: "(nat, unit) rag_lib" where
  "sample_rag =
     \<lparr>guidelines_pdf = Inr '''',
      encode = (\<lambda>ss. Inr (map length ss)),
      dimension = (\<lambda>vs. Inr 1),
      new_index = (\<lambda>d. Inr ()),
      index_add = (\<lambda>idx vs. Inr idx),
      search = (\<lambda>idx q k. Inr [0])\<rparr>"

definition failing_rag :: "(nat, unit) rag_lib" where
  "failing_rag = sample_rag\<lparr>encode := (\<lambda>ss. Inl (Exn ''RuntimeError'' ''CUDA out of memory''))\<rparr>"

definition built_recommender :: "unit recommender" where
  "built_recommender =
     \<lparr>rag_chunks = [''HIV testing is recommended for all sexually active individuals.''],
      rag_index = Some ()\<rparr>"

text \<open>The assessment \<open>hybrid_score\<close> returns for the text \<open>unprotected\<close> and a judge score of 0.6327.\<close>

definition sample_assessment :: risk_assessment where
  "sample_assessment =
     \<lparr>hiv_risk =
        \<lparr>final_score = Finite (to_double 0.7), final_category = ''MEDIUM'',
         rule_based = \<lparr>rule_score = to_double 0.8, rule_category = ''HIGH'',
                       rule_details = \<lparr>high_risk_matches = [''unprotected''],
                                        medium_risk_matches = [],
                                        low_risk_matches = [''protected''],
                                        symptom_matches = []\<rparr>\<rparr>,
         llm_based = JObj [(''score'', JFloat (Finite (to_double 0.6327)))]\<rparr>,
      mental_health_risk =
        \<lparr>final_score = Finite (to_double 0.38), final_category = ''LOW'',
         rule_based = \<lparr>rule_score = to_double 0.0, rule_category = ''LOW'',
                       rule_details = \<lparr>high_risk_matches = [], medium_risk_matches = [],
                                        low_risk_matches = [], symptom_matches = []\<rparr>\<rparr>,
         llm_based = JObj [(''score'', JFloat (Finite (to_double 0.6327)))]\<rparr>\<rparr>"

text \<open>Two messages whose texts join to \<open>I feel hopeless\<close>.\<close>

definition split_conversation :: conversation where
  "split_conversation =
     \<lparr>messages = [\<lparr>timestamp = ''2024-01-01 10:00'', role = ''User'', message_text = ''I feel''\<rparr>,
                  \<lparr>timestamp = ''2024-01-01 10:01'', role = ''AI'', message_text = ''hopeless''\<rparr>],
      full_text = ''I feel hopeless'', user_text = ''I feel'', message_count = 2\<rparr>"


section \<open>Properties of float rounding\<close>

lemma rhe_ge: "of_int n \<le> y \<Longrightarrow> n \<le> round_half_even y"
proof -
  assume "of_int n \<le> y"
  then have "n \<le> \<lfloor>y\<rfloor>" by (simp add: le_floor_iff)
  then show ?thesis by (simp add: round_half_even_def Let_def)
qed

lemma rhe_le: "y \<le> of_int n \<Longrightarrow> round_half_even y \<le> n"
proof -
  assume y: "y \<le> of_int n"
  then have "\<lfloor>y\<rfloor> \<le> \<lfloor>of_int n :: rat\<rfloor>" by (rule floor_mono)
  then have f: "\<lfloor>y\<rfloor> \<le> n" by simp
  show ?thesis
  proof (cases "\<lfloor>y\<rfloor> = n")
    case True
    then have "of_int n \<le> y" using of_int_floor_le [of y] by simp
    with y have "y = of_int n" by simp
    then show ?thesis by (simp add: round_half_even_def Let_def)
  next
    case False
    with f have "\<lfloor>y\<rfloor> + 1 \<le> n" by simp
    then show ?thesis by (simp add: round_half_even_def Let_def)
  qed
qed

lemma rhe_of_int: "round_half_even (of_int n) = n"
  by (simp add: round_half_even_def Let_def)

lemma rhe_mono: "y \<le> z \<Longrightarrow> round_half_even y \<le> round_half_even z"
proof -
  assume yz: "y \<le> z"
  then have fg: "\<lfloor>y\<rfloor> \<le> \<lfloor>z\<rfloor>" by (rule floor_mono)
  show ?thesis
  proof (cases "\<lfloor>y\<rfloor> = \<lfloor>z\<rfloor>")
    case True
    with yz show ?thesis
      by (auto simp: round_half_even_def Let_def)
  next
    case False
    with fg have "\<lfloor>y\<rfloor> + 1 \<le> \<lfloor>z\<rfloor>" by simp
    then have "(of_int (\<lfloor>y\<rfloor> + 1) :: rat) \<le> of_int \<lfloor>z\<rfloor>"
      by (simp only: of_int_le_iff)
    moreover have "y < of_int (\<lfloor>y\<rfloor> + 1)" using floor_correct [of y] by blast
    ultimately have "y \<le> of_int \<lfloor>z\<rfloor>" by simp
    then have "round_half_even y \<le> \<lfloor>z\<rfloor>" by (rule rhe_le)
    moreover have "\<lfloor>z\<rfloor> \<le> round_half_even z" by (rule rhe_ge) simp
    ultimately show ?thesis by simp
  qed
qed

lemma ilog2_bounds:
  assumes "0 < x"
  shows "2 powi ilog2 x \<le> x \<and> x < 2 powi (ilog2 x + 1)"
proof (cases "1 \<le> x")
  case True
  let ?n = "\<lfloor>x\<rfloor>"
  from True have n: "0 < ?n" by simp
  note b = bitlen_bounds [OF n]
  from n have b1: "1 \<le> bitlen ?n" by (simp add: bitlen_alt_def)
  have i: "ilog2 x = bitlen ?n - 1" using True by (simp add: ilog2_def)
  have "(2::rat) powi (bitlen ?n - 1) = of_int (2 ^ nat (bitlen ?n - 1))"
    using b1 by (simp add: power_int_def)
  also have "\<dots> \<le> of_int ?n" using b by (simp only: of_int_le_iff)
  also have "\<dots> \<le> x" by simp
  finally have lo: "2 powi ilog2 x \<le> x" by (simp only: i)
  have "x < of_int (?n + 1)" using floor_correct [of x] by blast
  also have "\<dots> \<le> of_int (2 ^ nat (bitlen ?n))"
    using b by (simp only: of_int_le_iff) simp
  also have "\<dots> = (2::rat) powi (bitlen ?n)"
    using b1 by (simp add: power_int_def)
  finally have "x < 2 powi (ilog2 x + 1)" by (simp add: i)
  with lo show ?thesis ..
next
  case False
  let ?m = "\<lceil>1 / x\<rceil> - 1"
  from False assms have y1: "1 < 1 / x" by simp
  then have "1 < \<lceil>1 / x\<rceil>" by (simp add: less_ceiling_iff)
  then have m: "0 < ?m" by simp
  note b = bitlen_bounds [OF m]
  from m have b1: "1 \<le> bitlen ?m" by (simp add: bitlen_alt_def)
  have i: "ilog2 x = - bitlen ?m" using False by (simp add: ilog2_def)
  have "1 / x \<le> of_int (?m + 1)" by simp
  also have "\<dots> \<le> of_int (2 ^ nat (bitlen ?m))"
    using b by (simp only: of_int_le_iff) simp
  also have "\<dots> = (2::rat) ^ nat (bitlen ?m)" by simp
  finally have "1 / x \<le> 2 ^ nat (bitlen ?m)" .
  then have "1 \<le> 2 ^ nat (bitlen ?m) * x"
    using assms by (simp add: field_simps)
  then have "inverse (2 ^ nat (bitlen ?m)) \<le> x"
    by (simp add: field_simps)
  moreover have "(2::rat) powi (- bitlen ?m) = inverse (2 ^ nat (bitlen ?m))"
    using b1 by (simp add: power_int_minus) (simp add: power_int_def)
  ultimately have lo: "2 powi ilog2 x \<le> x" by (simp only: i)
  have "(2::rat) ^ nat (bitlen ?m - 1) = of_int (2 ^ nat (bitlen ?m - 1))" by simp
  also have "\<dots> \<le> of_int ?m" using b by (simp only: of_int_le_iff)
  also have "\<dots> < 1 / x" using ceiling_correct [of "1 / x"] by simp
  finally have "(2::rat) ^ nat (bitlen ?m - 1) < 1 / x" .
  then have "x * 2 ^ nat (bitlen ?m - 1) < 1"
    using assms by (simp add: field_simps)
  then have "x < inverse (2 ^ nat (bitlen ?m - 1))"
    by (simp add: field_simps)
  moreover have "(2::rat) powi (- bitlen ?m + 1) = inverse (2 ^ nat (bitlen ?m - 1))"
  proof -
    have "(2::rat) powi (- bitlen ?m + 1) = 2 powi (- (bitlen ?m - 1))" by simp
    also have "\<dots> = inverse (2 powi (bitlen ?m - 1))" by (rule power_int_minus)
    also have "(2::rat) powi (bitlen ?m - 1) = 2 ^ nat (bitlen ?m - 1)"
      using b1 by (simp add: power_int_def)
    finally show ?thesis .
  qed
  ultimately have "x < 2 powi (ilog2 x + 1)" by (simp only: i)
  with lo show ?thesis ..
qed

lemma ilog2_less:
  assumes "0 < y" and "y < 2 powi k"
  shows "ilog2 y < k"
proof (rule ccontr)
  assume "\<not> ilog2 y < k"
  then have "(2::rat) powi k \<le> 2 powi ilog2 y"
    by (intro power_int_increasing) simp_all
  with ilog2_bounds [OF assms(1)] assms(2) show False by simp
qed

lemma ilog2_ge:
  assumes "0 < y" and "2 powi k \<le> y"
  shows "k \<le> ilog2 y"
proof (rule ccontr)
  assume "\<not> k \<le> ilog2 y"
  then have "(2::rat) powi (ilog2 y + 1) \<le> 2 powi k"
    by (intro power_int_increasing) simp_all
  with ilog2_bounds [OF assms(1)] assms(2) show False by simp
qed

lemma ilog2_mono:
  assumes "0 < x" and "x \<le> y"
  shows "ilog2 x \<le> ilog2 y"
proof -
  from assms have y: "0 < y" by simp
  from ilog2_bounds [OF assms(1)] assms(2) have "2 powi ilog2 x \<le> y" by simp
  with y show ?thesis by (rule ilog2_ge)
qed


lemma ulp_exp_pos: "0 < x \<Longrightarrow> ulp_exp x = max (- 1074) (ilog2 x - 52)"
  by (simp add: ulp_exp_def)

lemma pow2_split: "(2::rat) powi (e + k) = 2 powi e * 2 powi k"
  by (rule power_int_add) simp

lemma scaled_upper:
  assumes "0 < x"
  shows "x / 2 powi ulp_exp x < 2 ^ 53"
proof -
  have "ilog2 x + 1 \<le> ulp_exp x + 53"
    using assms by (simp add: ulp_exp_pos)
  then have "(2::rat) powi (ilog2 x + 1) \<le> 2 powi (ulp_exp x + 53)"
    by (intro power_int_increasing) simp_all
  with ilog2_bounds [OF assms] have "x < 2 powi (ulp_exp x + 53)" by simp
  then have "x < 2 powi ulp_exp x * 2 ^ 53" by (simp add: pow2_split)
  then show ?thesis by (simp add: field_simps)
qed

lemma scaled_lower:
  assumes "0 < x" and "- 1074 < ulp_exp x"
  shows "2 ^ 52 \<le> x / 2 powi ulp_exp x"
proof -
  from assms have e: "ulp_exp x + 52 = ilog2 x"
    by (simp add: ulp_exp_pos max_def split: if_splits)
  from ilog2_bounds [OF assms(1)] have "2 powi (ulp_exp x + 52) \<le> x"
    by (simp only: e)
  then have "2 powi ulp_exp x * 2 ^ 52 \<le> x" by (simp add: pow2_split)
  then show ?thesis by (simp add: field_simps)
qed

lemma to_double_nonneg: "0 \<le> x \<Longrightarrow> 0 \<le> to_double x"
proof -
  assume "0 \<le> x"
  then have "(of_int 0 :: rat) \<le> x / 2 powi ulp_exp x" by simp
  then have "0 \<le> round_half_even (x / 2 powi ulp_exp x)" by (rule rhe_ge)
  then show ?thesis by (simp add: to_double_def)
qed

lemma to_double_nonpos: "x \<le> 0 \<Longrightarrow> to_double x \<le> 0"
proof -
  assume "x \<le> 0"
  then have "x / 2 powi ulp_exp x \<le> (of_int 0 :: rat)"
    by (simp add: divide_nonpos_pos)
  then have "round_half_even (x / 2 powi ulp_exp x) \<le> 0" by (rule rhe_le)
  then show ?thesis by (simp add: to_double_def mult_nonpos_nonneg)
qed

lemma to_double_mono_pos:
  assumes "0 < x" and "x \<le> y"
  shows "to_double x \<le> to_double y"
proof -
  from assms have y: "0 < y" by simp
  let ?ex = "ulp_exp x" and ?ey = "ulp_exp y"
  have e: "?ex \<le> ?ey"
    using ilog2_mono [OF assms] assms(1) y by (simp add: ulp_exp_pos)
  have dx: "to_double x = of_int (round_half_even (x / 2 powi ?ex)) * 2 powi ?ex"
    using assms(1) by (simp add: to_double_def)
  have dy: "to_double y = of_int (round_half_even (y / 2 powi ?ey)) * 2 powi ?ey"
    using y by (simp add: to_double_def)
  show ?thesis
  proof (cases "?ex = ?ey")
    case True
    have "x / 2 powi ?ey \<le> y / 2 powi ?ey"
      using assms(2) by (simp add: divide_right_mono)
    then have "round_half_even (x / 2 powi ?ey) \<le> round_half_even (y / 2 powi ?ey)"
      by (rule rhe_mono)
    then show ?thesis
      unfolding dx dy True by (simp add: mult_right_mono)
  next
    case False
    have "- 1074 \<le> ?ex" by (simp add: ulp_exp_def)
    with e False have lt: "?ex + 1 \<le> ?ey" and n: "- 1074 < ?ey"
      by linarith+
    have "x / 2 powi ?ex \<le> of_int (2 ^ 53)"
      using scaled_upper [OF assms(1)] by simp
    then have "round_half_even (x / 2 powi ?ex) \<le> 2 ^ 53" by (rule rhe_le)
    then have "(of_int (round_half_even (x / 2 powi ?ex)) :: rat) \<le> of_int (2 ^ 53)"
      by (simp only: of_int_le_iff)
    then have "to_double x \<le> 2 ^ 53 * 2 powi ?ex"
      unfolding dx by (simp add: mult_right_mono)
    also have "\<dots> = 2 powi (?ex + 1 + 52)"
      by (simp add: pow2_split)
    also have "\<dots> \<le> 2 powi (?ey + 52)"
      using lt by (intro power_int_increasing) simp_all
    also have "\<dots> = 2 ^ 52 * 2 powi ?ey" by (simp add: pow2_split)
    also have "\<dots> \<le> to_double y"
    proof -
      have "of_int (2 ^ 52) \<le> y / 2 powi ?ey"
        using scaled_lower [OF y n] by simp
      then have "2 ^ 52 \<le> round_half_even (y / 2 powi ?ey)" by (rule rhe_ge)
      then have "(of_int (2 ^ 52) :: rat) \<le> of_int (round_half_even (y / 2 powi ?ey))"
        by (simp only: of_int_le_iff)
      then show ?thesis unfolding dy by (simp add: mult_right_mono)
    qed
    finally show ?thesis .
  qed
qed

lemma to_double_mono:
  assumes "0 \<le> x" and "x \<le> y"
  shows "to_double x \<le> to_double y"
proof (cases "x = 0")
  case True
  then have "to_double x = 0" by (simp add: to_double_def)
  moreover have "0 \<le> to_double y" using assms by (intro to_double_nonneg) simp
  ultimately show ?thesis by simp
next
  case False
  with assms have "0 < x" by simp
  then show ?thesis using assms(2) by (rule to_double_mono_pos)
qed

lemma to_double_idem:
  assumes "0 \<le> x"
  shows "to_double (to_double x) = to_double x"
proof (cases "x = 0")
  case True
  then show ?thesis by (simp add: to_double_def)
next
  case False
  with assms have x: "0 < x" by simp
  let ?e = "ulp_exp x"
  let ?m = "round_half_even (x / 2 powi ?e)"
  let ?y = "to_double x"
  have y: "?y = of_int ?m * 2 powi ?e" using x by (simp add: to_double_def)
  have m0: "0 \<le> ?m" by (rule rhe_ge) (use x in simp)
  have "x / 2 powi ?e \<le> of_int (2 ^ 53)" using scaled_upper [OF x] by simp
  then have m53: "?m \<le> 2 ^ 53" by (rule rhe_le)
  show ?thesis
  proof (cases "?m = 0")
    case True
    then show ?thesis by (simp add: y) (simp add: to_double_def)
  next
    case m: False
    with m0 have mpos: "0 < ?m" by simp
    then have ypos: "0 < ?y" by (simp add: y)
    have lo: "2 powi (?e + 52) \<le> ?y" if "- 1074 < ?e"
    proof -
      have "of_int (2 ^ 52) \<le> x / 2 powi ?e" using scaled_lower [OF x that] by simp
      then have "2 ^ 52 \<le> ?m" by (rule rhe_ge)
      then have "(of_int (2 ^ 52) :: rat) \<le> of_int ?m" by (simp only: of_int_le_iff)
      then have "2 ^ 52 * 2 powi ?e \<le> ?y" unfolding y by (simp add: mult_right_mono)
      then show ?thesis by (simp add: pow2_split mult.commute)
    qed
    show ?thesis
    proof (cases "?m = 2 ^ 53")
      case True
      then have y53: "?y = 2 powi (?e + 53)" by (simp add: y pow2_split mult.commute)
      have "ilog2 ?y = ?e + 53"
      proof (rule antisym)
        have "?y < 2 powi (?e + 53 + 1)"
          unfolding y53 by (intro power_int_strict_increasing) simp_all
        with ypos have "ilog2 ?y < ?e + 53 + 1" by (rule ilog2_less)
        then show "ilog2 ?y \<le> ?e + 53" by simp
        show "?e + 53 \<le> ilog2 ?y" by (rule ilog2_ge [OF ypos]) (simp add: y53)
      qed
      moreover have "- 1074 \<le> ?e" by (simp add: ulp_exp_def)
      ultimately have e': "ulp_exp ?y = ?e + 1"
        using ypos by (simp add: ulp_exp_pos)
      have "?y / 2 powi (?e + 1) = of_int (2 ^ 52)"
        by (simp add: y53 power_int_diff [symmetric] flip: power_int_diff)
      then have "round_half_even (?y / 2 powi (?e + 1)) = 2 ^ 52"
        by (simp only: rhe_of_int)
      then have "to_double ?y = of_int (2 ^ 52) * 2 powi (?e + 1)"
        using ypos by (simp add: to_double_def [of ?y] e')
      also have "\<dots> = 2 powi (?e + 1 + 52)" by (simp add: pow2_split mult.commute)
      also have "\<dots> = ?y" by (simp add: y53 ac_simps)
      finally show ?thesis .
    next
      case False
      with m53 have "?m + 1 \<le> 2 ^ 53" by simp
      then have "(of_int (?m + 1) :: rat) \<le> of_int (2 ^ 53)" by (simp only: of_int_le_iff)
      then have "(of_int ?m :: rat) < 2 ^ 53" by simp
      then have "?y < 2 ^ 53 * 2 powi ?e" unfolding y by (simp add: mult_strict_right_mono)
      then have "?y < 2 powi (?e + 53)" by (simp add: pow2_split mult.commute)
      with ypos have up: "ilog2 ?y < ?e + 53" by (rule ilog2_less)
      have e': "ulp_exp ?y = ?e"
      proof (cases "- 1074 < ?e")
        case True
        from ilog2_ge [OF ypos lo [OF True]] up have "ilog2 ?y = ?e + 52" by simp
        with True ypos show ?thesis by (simp add: ulp_exp_pos)
      next
        case False
        moreover have "- 1074 \<le> ?e" by (simp add: ulp_exp_def)
        ultimately have "?e = - 1074" by simp
        with up ypos show ?thesis by (simp add: ulp_exp_pos)
      qed
      have "?y / 2 powi ?e = of_int ?m" by (simp add: y)
      then have "round_half_even (?y / 2 powi ?e) = ?m" by (simp only: rhe_of_int)
      then show ?thesis
        using ypos by (simp add: to_double_def [of ?y] e') (simp add: y)
    qed
  qed
qed

lemma to_double_zero: "to_double 0 = 0"
  by (simp add: to_double_def)

lemma dmul_commute: "dmul a b = dmul b a"
  by (simp add: dmul_def mult.commute)

lemma dadd_nonneg: "0 \<le> a + b \<Longrightarrow> 0 \<le> dadd a b"
  by (simp add: dadd_def to_double_nonneg)

lemma dmul_nonneg: "0 \<le> a \<Longrightarrow> 0 \<le> b \<Longrightarrow> 0 \<le> dmul a b"
  by (simp add: dmul_def to_double_nonneg)

lemma double_of_nat_nonneg: "0 \<le> double_of_nat n"
  by (simp add: double_of_nat_def to_double_nonneg)


lemma dadd_zero_right: "0 \<le> a \<Longrightarrow> to_double a = a \<Longrightarrow> dadd a 0 = a"
  by (simp add: dadd_def)

lemma dadd_zero_left: "0 \<le> a \<Longrightarrow> to_double a = a \<Longrightarrow> dadd 0 a = a"
  by (simp add: dadd_def)

lemma dadd_is_double: "0 \<le> a + b \<Longrightarrow> to_double (dadd a b) = dadd a b"
  by (simp add: dadd_def to_double_idem)


lemma ilog2_eqI:
  assumes "0 < x" and "2 powi k \<le> x" and "x < 2 powi (k + 1)"
  shows "ilog2 x = k"
  using ilog2_ge [OF assms(1,2)] ilog2_less [OF assms(1,3)] by simp

lemma rhe_eqI:
  assumes "\<bar>y - of_int m\<bar> < 1 / 2"
  shows "round_half_even y = m"
proof (cases "of_int m \<le> y")
  case True
  with assms have "y < of_int m + 1" by simp
  with True have "\<lfloor>y\<rfloor> = m" by (simp add: floor_unique)
  with True assms show ?thesis by (simp add: round_half_even_def Let_def)
next
  case False
  with assms have "of_int (m - 1) \<le> y" "y < of_int (m - 1) + 1" by simp_all
  then have f: "\<lfloor>y\<rfloor> = m - 1" by (rule floor_unique)
  with False assms show ?thesis by (simp add: round_half_even_def Let_def)
qed

lemma rhe_tie: "round_half_even (of_int n + 1 / 2) = (if even n then n else n + 1)"
proof -
  have "\<lfloor>(of_int n :: rat) + 1 / 2\<rfloor> = n" by (rule floor_unique) simp_all
  then show ?thesis by (simp add: round_half_even_def Let_def)
qed

lemma to_double_scaled:
  assumes "2 ^ 52 \<le> x * 2 ^ k" and "x * 2 ^ k < 2 ^ 53" and "k \<le> 1074"
  shows "to_double x = of_int (round_half_even (x * 2 ^ k)) / 2 ^ k"
proof -
  have p: "(0::rat) < 2 ^ k" by simp
  have "(0::rat) < 2 ^ 52" by simp
  then have "0 < x * 2 ^ k" using assms(1) by (rule less_le_trans)
  with p have x: "0 < x" by (simp add: zero_less_mult_iff)
  have pk: "(2::rat) powi (- int k) = 1 / 2 ^ k"
    by (simp add: power_int_minus field_simps)
  have "(2::rat) powi (52 - int k) = 2 powi 52 * 2 powi (- int k)"
    using pow2_split [of 52 "- int k"] by simp
  also have "\<dots> = 2 ^ 52 / 2 ^ k" by (simp only: pk) simp
  finally have lo: "(2::rat) powi (52 - int k) = 2 ^ 52 / 2 ^ k" .
  have "(2::rat) powi (52 - int k + 1) = 2 powi 53 * 2 powi (- int k)"
    using pow2_split [of 53 "- int k"] by simp
  also have "\<dots> = 2 ^ 53 / 2 ^ k" by (simp only: pk) simp
  finally have hi: "(2::rat) powi (52 - int k + 1) = 2 ^ 53 / 2 ^ k" .
  have "2 powi (52 - int k) \<le> x"
    unfolding lo using assms(1) p by (simp add: field_simps)
  moreover have "x < 2 powi (52 - int k + 1)"
    unfolding hi using assms(2) p by (simp add: field_simps)
  ultimately have "ilog2 x = 52 - int k" using x by (intro ilog2_eqI)
  with x assms(3) have e: "ulp_exp x = - int k" by (simp add: ulp_exp_pos)
  have s: "x / 2 powi (- int k) = x * 2 ^ k" by (simp only: pk) simp
  from x show ?thesis by (simp add: to_double_def e s pk)
qed

text \<open>
  How a concrete rounding is checked: \<open>k\<close> scales \<open>x\<close> into the range of a 53-bit
  significand, and \<open>m\<close> is the integer nearest to the scaled value, or the even one of the two
  nearest.
\<close>

lemma to_double_eqI:
  assumes "2 ^ 52 \<le> x * 2 ^ k" and "x * 2 ^ k < 2 ^ 53" and "k \<le> 1074"
    and "\<bar>x * 2 ^ k - of_int m\<bar> < 1 / 2"
  shows "to_double x = of_int m / 2 ^ k"
  using to_double_scaled [OF assms(1-3)] rhe_eqI [OF assms(4)] by simp

lemma to_double_tieI:
  assumes "2 ^ 52 \<le> x * 2 ^ k" and "x * 2 ^ k < 2 ^ 53" and "k \<le> 1074"
    and "x * 2 ^ k = of_int n + 1 / 2"
  shows "to_double x = of_int (if even n then n else n + 1) / 2 ^ k"
  using to_double_scaled [OF assms(1-3)] rhe_tie [of n] by (simp only: assms(4))

lemma round_double_unit:
  assumes "0 \<le> x" and "x \<le> 2"
  shows "round_double x = Finite (to_double x)"
proof (cases "to_double x = 0")
  case True
  then show ?thesis by (simp add: round_double_def)
next
  case False
  have two: "to_double 2 = 2"
    using to_double_eqI [where x = 2 and k = 51 and m = 4503599627370496] by simp
  from assms(1) have "0 \<le> to_double x" by (rule to_double_nonneg)
  with False have pos: "0 < to_double x" by simp
  from assms have "to_double x \<le> to_double 2" by (rule to_double_mono)
  then have "to_double x < 2 powi 2" by (simp add: two)
  with pos have "ilog2 (to_double x) < 2" by (rule ilog2_less)
  with pos False show ?thesis by (simp add: round_double_def)
qed

text \<open>
  The roundings that the sample runs below go through, each checked against the scaled
  significand.
\<close>

lemma double_value_1: "to_double (7 / 1000) = 8070450532247929 / 1152921504606846976"
  using to_double_eqI [where x = "7 / 1000" and k = 60 and m = 8070450532247929] by simp

lemma double_value_2: "to_double (1080863910568919 / 144115188075855872) = 1080863910568919 / 144115188075855872"
  using to_double_eqI [where x = "1080863910568919 / 144115188075855872" and k = 60 and m = 8646911284551352] by simp

lemma double_value_3: "to_double (19471113219505603967277331424215 / 2596148429267413814265248164610048) = 1080863910568919 / 144115188075855872"
  using to_double_eqI [where x = "19471113219505603967277331424215 / 2596148429267413814265248164610048" and k = 60 and m = 8646911284551352] by simp

lemma double_value_4: "to_double (1 / 80) = 3602879701896397 / 288230376151711744"
  using to_double_eqI [where x = "1 / 80" and k = 59 and m = 7205759403792794] by simp

lemma double_value_5: "to_double (1 / 50) = 5764607523034235 / 288230376151711744"
  using to_double_eqI [where x = "1 / 50" and k = 58 and m = 5764607523034235] by simp

lemma double_value_6: "to_double (1 / 20) = 3602879701896397 / 72057594037927936"
  using to_double_eqI [where x = "1 / 20" and k = 57 and m = 7205759403792794] by simp

lemma double_value_7: "to_double (1 / 10) = 3602879701896397 / 36028797018963968"
  using to_double_eqI [where x = "1 / 10" and k = 56 and m = 7205759403792794] by simp

lemma double_value_8: "to_double (3602879701896397 / 36028797018963968) = 3602879701896397 / 36028797018963968"
  using to_double_eqI [where x = "3602879701896397 / 36028797018963968" and k = 56 and m = 7205759403792794] by simp

lemma double_value_9: "to_double (3602879701896397 / 18014398509481984) = 3602879701896397 / 18014398509481984"
  using to_double_eqI [where x = "3602879701896397 / 18014398509481984" and k = 55 and m = 7205759403792794] by simp

lemma double_value_10: "to_double (3 / 10) = 5404319552844595 / 18014398509481984"
  using to_double_eqI [where x = "3 / 10" and k = 54 and m = 5404319552844595] by simp

lemma double_value_11: "to_double (10808639105689191 / 36028797018963968) = 1351079888211149 / 4503599627370496"
  using to_double_tieI [where x = "10808639105689191 / 36028797018963968" and k = 54 and n = 5404319552844595] by simp

lemma double_value_12: "to_double (25961484292674137422076541266821 / 81129638414606681695789005144064) = 5764607523034235 / 18014398509481984"
  using to_double_eqI [where x = "25961484292674137422076541266821 / 81129638414606681695789005144064" and k = 54 and m = 5764607523034235] by simp

lemma double_value_13: "to_double (47197724094842799 / 144115188075855872) = 2949857755927675 / 9007199254740992"
  using to_double_eqI [where x = "47197724094842799 / 144115188075855872" and k = 54 and m = 5899715511855350] by simp

lemma double_value_14: "to_double (41 / 125) = 5908722711110091 / 18014398509481984"
  using to_double_eqI [where x = "41 / 125" and k = 54 and m = 5908722711110091] by simp

lemma double_value_15: "to_double (15399216667476494659893189373235 / 40564819207303340847894502572032) = 6838625962169551 / 18014398509481984"
  using to_double_eqI [where x = "15399216667476494659893189373235 / 40564819207303340847894502572032" and k = 54 and m = 6838625962169551] by simp

lemma double_value_16: "to_double (6838625962169551 / 18014398509481984) = 6838625962169551 / 18014398509481984"
  using to_double_eqI [where x = "6838625962169551 / 18014398509481984" and k = 54 and m = 6838625962169551] by simp

lemma double_value_17: "to_double (19 / 50) = 3422735716801577 / 9007199254740992"
  using to_double_eqI [where x = "19 / 50" and k = 54 and m = 6845471433603154] by simp

lemma double_value_18: "to_double (30861714452916380964076279860455 / 81129638414606681695789005144064) = 6852677193006947 / 18014398509481984"
  using to_double_eqI [where x = "30861714452916380964076279860455 / 81129638414606681695789005144064" and k = 54 and m = 6852677193006947] by simp

lemma double_value_19: "to_double (6852677193006947 / 18014398509481984) = 6852677193006947 / 18014398509481984"
  using to_double_eqI [where x = "6852677193006947 / 18014398509481984" and k = 54 and m = 6852677193006947] by simp

lemma double_value_20: "to_double (7205759403792793 / 18014398509481984) = 7205759403792793 / 18014398509481984"
  using to_double_eqI [where x = "7205759403792793 / 18014398509481984" and k = 54 and m = 7205759403792793] by simp

lemma double_value_21: "to_double (32451855365842670876875751109427 / 81129638414606681695789005144064) = 7205759403792793 / 18014398509481984"
  using to_double_eqI [where x = "32451855365842670876875751109427 / 81129638414606681695789005144064" and k = 54 and m = 7205759403792793] by simp

lemma double_value_22: "to_double (2 / 5) = 3602879701896397 / 9007199254740992"
  using to_double_eqI [where x = "2 / 5" and k = 54 and m = 7205759403792794] by simp

lemma double_value_23: "to_double (1 / 2) = 1 / 2"
  using to_double_eqI [where x = "1 / 2" and k = 53 and m = 4503599627370496] by simp

lemma double_value_24: "to_double (3 / 5) = 5404319552844595 / 9007199254740992"
  using to_double_eqI [where x = "3 / 5" and k = 53 and m = 5404319552844595] by simp

lemma double_value_25: "to_double (6327 / 10000) = 2849427484237313 / 4503599627370496"
  using to_double_eqI [where x = "6327 / 10000" and k = 53 and m = 5698854968474626] by simp

lemma double_value_26: "to_double (317 / 500) = 5710564327505789 / 9007199254740992"
  using to_double_eqI [where x = "317 / 500" and k = 53 and m = 5710564327505789] by simp

lemma double_value_27: "to_double (6301616742601893 / 9007199254740992) = 6301616742601893 / 9007199254740992"
  using to_double_eqI [where x = "6301616742601893 / 9007199254740992" and k = 53 and m = 6301616742601893] by simp

lemma double_value_28: "to_double (7 / 10) = 3152519739159347 / 4503599627370496"
  using to_double_eqI [where x = "7 / 10" and k = 53 and m = 6305039478318694] by simp

lemma double_value_29: "to_double (6308642358020591 / 9007199254740992) = 6308642358020591 / 9007199254740992"
  using to_double_eqI [where x = "6308642358020591 / 9007199254740992" and k = 53 and m = 6308642358020591] by simp

lemma double_value_30: "to_double (7999999999999999 / 10000000000000000) = 7205759403792793 / 9007199254740992"
  using to_double_eqI [where x = "7999999999999999 / 10000000000000000" and k = 53 and m = 7205759403792793] by simp

lemma double_value_31: "to_double (7205759403792793 / 9007199254740992) = 7205759403792793 / 9007199254740992"
  using to_double_eqI [where x = "7205759403792793 / 9007199254740992" and k = 53 and m = 7205759403792793] by simp

lemma double_value_32: "to_double (28823037615171173 / 36028797018963968) = 7205759403792793 / 9007199254740992"
  using to_double_eqI [where x = "28823037615171173 / 36028797018963968" and k = 53 and m = 7205759403792793] by simp

lemma double_value_33: "to_double (4 / 5) = 3602879701896397 / 4503599627370496"
  using to_double_eqI [where x = "4 / 5" and k = 53 and m = 7205759403792794] by simp

lemma double_value_34: "to_double (8999999999999999 / 10000000000000000) = 2026619832316723 / 2251799813685248"
  using to_double_eqI [where x = "8999999999999999 / 10000000000000000" and k = 53 and m = 8106479329266892] by simp

lemma double_value_35: "to_double (2026619832316723 / 2251799813685248) = 2026619832316723 / 2251799813685248"
  using to_double_eqI [where x = "2026619832316723 / 2251799813685248" and k = 53 and m = 8106479329266892] by simp

lemma double_value_36: "to_double (16212958658533785 / 18014398509481984) = 2026619832316723 / 2251799813685248"
  using to_double_tieI [where x = "16212958658533785 / 18014398509481984" and k = 53 and n = 8106479329266892] by simp

lemma double_value_37: "to_double (9999999999999999 / 10000000000000000) = 9007199254740991 / 9007199254740992"
  using to_double_eqI [where x = "9999999999999999 / 10000000000000000" and k = 53 and m = 9007199254740991] by simp

lemma double_value_38: "to_double (36028797018963965 / 36028797018963968) = 9007199254740991 / 9007199254740992"
  using to_double_eqI [where x = "36028797018963965 / 36028797018963968" and k = 53 and m = 9007199254740991] by simp

lemma double_value_39: "to_double (1) = 1"
  using to_double_eqI [where x = "1" and k = 52 and m = 4503599627370496] by simp

lemma double_value_40: "to_double (2) = 2"
  using to_double_eqI [where x = "2" and k = 51 and m = 4503599627370496] by simp

lemma double_value_41: "to_double (3) = 3"
  using to_double_eqI [where x = "3" and k = 51 and m = 6755399441055744] by simp

lemma double_value_42: "to_double (4) = 4"
  using to_double_eqI [where x = "4" and k = 50 and m = 4503599627370496] by simp

lemma rounded_value_1: "round_half_even (0) = 0"
  using rhe_eqI [where y = "0" and m = 0] by simp

lemma rounded_value_2: "round_half_even (135107988821114875 / 18014398509481984) = 7"
  using rhe_eqI [where y = "135107988821114875 / 18014398509481984" and m = 7] by simp

lemma rounded_value_3: "round_half_even (368732219490959375 / 1125899906842624) = 328"
  using rhe_eqI [where y = "368732219490959375 / 1125899906842624" and m = 328] by simp

lemma rounded_value_4: "round_half_even (854828245271193875 / 2251799813685248) = 380"
  using rhe_eqI [where y = "854828245271193875 / 2251799813685248" and m = 380] by simp

lemma rounded_value_5: "round_half_even (856584649125868375 / 2251799813685248) = 380"
  using rhe_eqI [where y = "856584649125868375 / 2251799813685248" and m = 380] by simp

lemma rounded_value_6: "round_half_even (900719925474099125 / 2251799813685248) = 400"
  using rhe_eqI [where y = "900719925474099125 / 2251799813685248" and m = 400] by simp

lemma rounded_value_7: "round_half_even (450359962737049625 / 1125899906842624) = 400"
  using rhe_eqI [where y = "450359962737049625 / 1125899906842624" and m = 400] by simp

lemma rounded_value_8: "round_half_even (787702092825236625 / 1125899906842624) = 700"
  using rhe_eqI [where y = "787702092825236625 / 1125899906842624" and m = 700] by simp

lemma rounded_value_9: "round_half_even (394064967394918375 / 562949953421312) = 700"
  using rhe_eqI [where y = "394064967394918375 / 562949953421312" and m = 700] by simp

lemma rounded_value_10: "round_half_even (788580294752573875 / 1125899906842624) = 700"
  using rhe_eqI [where y = "788580294752573875 / 1125899906842624" and m = 700] by simp

lemma rounded_value_11: "round_half_even (900719925474099125 / 1125899906842624) = 800"
  using rhe_eqI [where y = "900719925474099125 / 1125899906842624" and m = 800] by simp

lemmas double_values =
  to_double_zero double_value_1 double_value_2 double_value_3 double_value_4 double_value_5
  double_value_6 double_value_7 double_value_8 double_value_9 double_value_10 double_value_11
  double_value_12 double_value_13 double_value_14 double_value_15 double_value_16
  double_value_17 double_value_18 double_value_19 double_value_20 double_value_21
  double_value_22 double_value_23 double_value_24 double_value_25 double_value_26
  double_value_27 double_value_28 double_value_29 double_value_30 double_value_31
  double_value_32 double_value_33 double_value_34 double_value_35 double_value_36
  double_value_37 double_value_38 double_value_39 double_value_40 double_value_41
  double_value_42

lemmas rounded_values =
  rounded_value_1 rounded_value_2 rounded_value_3 rounded_value_4 rounded_value_5
  rounded_value_6 rounded_value_7 rounded_value_8 rounded_value_9 rounded_value_10
  rounded_value_11


section \<open>Properties of the rule scorer\<close>

lemma startswith_iff: "startswith t p \<longleftrightarrow> (\<exists>v. t = p @ v)"
  by (induction t p rule: startswith.induct) auto

lemma contains_iff_occurs: "contains p t \<longleftrightarrow> occurs p t"
proof (induction t)
  case Nil
  show ?case by (auto simp: occurs_def)
next
  case (Cons c t)
  have "occurs p (c # t) \<longleftrightarrow> (\<exists>v. c # t = p @ v) \<or> occurs p t"
  proof
    assume "occurs p (c # t)"
    then obtain u v where uv: "c # t = u @ p @ v" by (auto simp: occurs_def)
    show "(\<exists>v. c # t = p @ v) \<or> occurs p t"
    proof (cases u)
      case Nil
      with uv show ?thesis by auto
    next
      case (Cons a u')
      with uv have "t = u' @ p @ v" by simp
      then show ?thesis by (auto simp: occurs_def)
    qed
  next
    assume "(\<exists>v. c # t = p @ v) \<or> occurs p t"
    then show "occurs p (c # t)"
    proof
      assume "\<exists>v. c # t = p @ v"
      then obtain v where "c # t = [] @ p @ v" by auto
      then show ?thesis unfolding occurs_def by blast
    next
      assume "occurs p t"
      then obtain u v where "t = u @ p @ v" by (auto simp: occurs_def)
      then have "c # t = (c # u) @ p @ v" by simp
      then show ?thesis unfolding occurs_def by blast
    qed
  qed
  with Cons show ?case by (simp add: startswith_iff)
qed

lemma count_matches_distinct:
  assumes "distinct ps"
  shows "count_matches ps (lower_str text) = distinct_matches ps text"
proof -
  have "distinct (filter (\<lambda>p. contains p (lower_str text)) ps)"
    using assms by simp
  then have "card (set (filter (\<lambda>p. contains p (lower_str text)) ps)) =
             length (filter (\<lambda>p. contains p (lower_str text)) ps)"
    by (rule distinct_card)
  moreover have "set (filter (\<lambda>p. contains p (lower_str text)) ps) =
                 {p \<in> set ps. occurs p (lower_str text)}"
    by (simp add: contains_iff_occurs)
  ultimately show ?thesis
    by (simp only: count_matches_def distinct_matches_def)
qed

lemma count_matches_zero:
  "count_matches ps t = 0 \<longleftrightarrow> (\<forall>p \<in> set ps. \<not> occurs p t)"
  by (simp add: count_matches_def filter_empty_conv contains_iff_occurs)

lemma set_matches: "set (matches ps t) = {p \<in> set ps. occurs p t}"
  by (simp add: matches_def contains_iff_occurs)

lemma of_char_lower_char:
  "(of_char (lower_char c) :: nat) =
     (let n = of_char c in
      if (65 \<le> n \<and> n \<le> 90) \<or> (192 \<le> n \<and> n \<le> 222 \<and> n \<noteq> 215) then n + 32 else n)"
  by (simp add: lower_char_def Let_def)

lemma lower_char_idem: "lower_char (lower_char c) = lower_char c"
proof -
  let ?n = "of_char c :: nat"
  show ?thesis
  proof (cases "(65 \<le> ?n \<and> ?n \<le> 90) \<or> (192 \<le> ?n \<and> ?n \<le> 222 \<and> ?n \<noteq> 215)")
    case True
    then have "(of_char (lower_char c) :: nat) = ?n + 32"
      by (simp add: of_char_lower_char Let_def)
    with True show ?thesis
      by (subst (1) lower_char_def) (auto simp: Let_def)
  next
    case False
    then have "lower_char c = c"
      unfolding lower_char_def Let_def by (simp only: if_False)
    then show ?thesis by simp
  qed
qed

lemma lower_str_idem: "lower_str (lower_str s) = lower_str s"
  by (simp add: lower_str_def lower_char_idem)

lemma lower_str_append: "lower_str (u @ v) = lower_str u @ lower_str v"
  by (simp add: lower_str_def)

lemma occurs_in_lower_fixed:
  assumes "occurs p (lower_str t)"
  shows "lower_str p = p"
proof -
  from assms obtain u v where uv: "lower_str t = u @ p @ v"
    by (auto simp: occurs_def)
  have "lower_str (u @ p @ v) = u @ p @ v"
    using lower_str_idem [of t] by (simp only: uv)
  then have "lower_str u @ lower_str p @ lower_str v = u @ p @ v"
    by (simp only: lower_str_append)
  moreover have "length (lower_str u) = length u"
    by (simp add: lower_str_def)
  moreover have "length (lower_str p) = length p"
    by (simp add: lower_str_def)
  ultimately show ?thesis by simp
qed

text \<open>The base that a tier contributes is a non-negative double.\<close>

lemma tier_base_double:
  assumes "0 \<le> c" and "0 \<le> w"
  shows "0 \<le> dadd (to_double c) (dmul (double_of_nat n) (to_double w))
         \<and> to_double (dadd (to_double c) (dmul (double_of_nat n) (to_double w)))
             = dadd (to_double c) (dmul (double_of_nat n) (to_double w))"
proof -
  have "0 \<le> to_double c + dmul (double_of_nat n) (to_double w)"
    using assms by (intro add_nonneg_nonneg dmul_nonneg double_of_nat_nonneg to_double_nonneg)
  then show ?thesis by (simp add: dadd_nonneg dadd_is_double)
qed

lemma symptom_bonus_nonneg:
  "0 \<le> min (dmul (double_of_nat n) (to_double 0.1)) (to_double 0.3)"
  by (simp add: dmul_nonneg double_of_nat_nonneg to_double_nonneg)

lemma rule_score_policy:
  "fst (rule_based_score text kws symptoms) =
     policy_score (count_matches (high kws) (lower_str text))
                  (count_matches (medium kws) (lower_str text))
                  (count_matches (low kws) (lower_str text))
                  (count_matches symptoms (lower_str text))"
proof -
  let ?h = "count_matches (high kws) (lower_str text)"
  let ?m = "count_matches (medium kws) (lower_str text)"
  let ?l = "count_matches (low kws) (lower_str text)"
  let ?s = "count_matches symptoms (lower_str text)"
  define base where "base =
     (if 0 < ?h then dadd (to_double 0.7) (dmul (double_of_nat ?h) (to_double 0.1))
      else if 0 < ?m then dadd (to_double 0.4) (dmul (double_of_nat ?m) (to_double 0.05))
      else if 0 < ?l then dadd (to_double 0.1) (dmul (double_of_nat ?l) (to_double 0.02))
      else 0)"
  have b: "0 \<le> base \<and> to_double base = base"
    unfolding base_def
    using tier_base_double [of "0.7" "0.1" ?h] tier_base_double [of "0.4" "0.05" ?m]
      tier_base_double [of "0.1" "0.02" ?l]
    by (simp add: to_double_zero)
  have code: "fst (rule_based_score text kws symptoms) =
     min (if 0 < ?s
          then dadd (if 0 < ?h then dadd 0 (dadd (to_double 0.7)
                                      (dmul (double_of_nat ?h) (to_double 0.1)))
                     else if 0 < ?m then dadd 0 (dadd (to_double 0.4)
                                      (dmul (double_of_nat ?m) (to_double 0.05)))
                     else if 0 < ?l then dadd 0 (dadd (to_double 0.1)
                                      (dmul (double_of_nat ?l) (to_double 0.02)))
                     else 0)
                 (min (dmul (double_of_nat ?s) (to_double 0.1)) (to_double 0.3))
          else (if 0 < ?h then dadd 0 (dadd (to_double 0.7)
                                      (dmul (double_of_nat ?h) (to_double 0.1)))
                else if 0 < ?m then dadd 0 (dadd (to_double 0.4)
                                      (dmul (double_of_nat ?m) (to_double 0.05)))
                else if 0 < ?l then dadd 0 (dadd (to_double 0.1)
                                      (dmul (double_of_nat ?l) (to_double 0.02)))
                else 0))
         (to_double 1.0)"
    by (simp add: rule_based_score_def Let_def to_double_zero)
  have z: "(if 0 < ?h then dadd 0 (dadd (to_double 0.7)
                                      (dmul (double_of_nat ?h) (to_double 0.1)))
                else if 0 < ?m then dadd 0 (dadd (to_double 0.4)
                                      (dmul (double_of_nat ?m) (to_double 0.05)))
                else if 0 < ?l then dadd 0 (dadd (to_double 0.1)
                                      (dmul (double_of_nat ?l) (to_double 0.02)))
                else 0) = base"
    unfolding base_def
    using tier_base_double [of "0.7" "0.1" ?h] tier_base_double [of "0.4" "0.05" ?m]
      tier_base_double [of "0.1" "0.02" ?l]
    by (simp add: dadd_zero_left)
  have spec: "policy_score ?h ?m ?l ?s =
     min (to_double 1.0)
         (dadd base (min (dmul (double_of_nat ?s) (to_double 0.1)) (to_double 0.3)))"
    unfolding base_def policy_score_def
    by (simp add: dmul_commute to_double_zero)
  show ?thesis
  proof (cases "0 < ?s")
    case True
    then show ?thesis unfolding code z spec by (simp add: min.commute)
  next
    case False
    then have s0: "?s = 0" by simp
    have "min (dmul (double_of_nat 0) (to_double 0.1)) (to_double 0.3) = 0"
      by (simp add: double_of_nat_def dmul_def to_double_zero to_double_nonneg min_def)
    then have "dadd base (min (dmul (double_of_nat ?s) (to_double 0.1)) (to_double 0.3)) = base"
      using b by (simp add: s0 dadd_zero_right)
    then show ?thesis unfolding code z spec using False by (simp add: min.commute)
  qed
qed

lemma policy_score_zero: "policy_score 0 0 0 0 = 0"
  using to_double_nonneg [of 1] to_double_nonneg [of "3 / 10"]
  by (simp add: policy_score_def double_of_nat_def dmul_def dadd_def to_double_zero min_def)

lemma thresholds_positive: "0 < to_double 0.4 \<and> 0 < to_double 0.7"
  by (simp add: double_values)







lemma rule_category:
  "fst (snd (rule_based_score text kws symptoms)) =
     (if fst (rule_based_score text kws symptoms) \<ge> to_double 0.7 then ''HIGH''
      else if fst (rule_based_score text kws symptoms) \<ge> to_double 0.4 then ''MEDIUM''
      else ''LOW'')"
  by (simp add: rule_based_score_def Let_def)

lemma rule_details_eq:
  "snd (snd (rule_based_score text kws symptoms)) =
     \<lparr>high_risk_matches = matches (high kws) (lower_str text),
      medium_risk_matches = matches (medium kws) (lower_str text),
      low_risk_matches = matches (low kws) (lower_str text),
      symptom_matches = matches symptoms (lower_str text)\<rparr>"
  by (simp add: rule_based_score_def Let_def)

text \<open>The rule scores of the text \<open>unprotected\<close>, which sample runs use.\<close>

lemma unprotected_counts:
  "count_matches (high HIV_RISK_KEYWORDS) (lower_str ''unprotected'') = 1"
  "count_matches (medium HIV_RISK_KEYWORDS) (lower_str ''unprotected'') = 0"
  "count_matches (low HIV_RISK_KEYWORDS) (lower_str ''unprotected'') = 1"
  "count_matches HIV_SYMPTOM_PATTERNS (lower_str ''unprotected'') = 0"
  "count_matches (high MENTAL_HEALTH_KEYWORDS) (lower_str ''unprotected'') = 0"
  "count_matches (medium MENTAL_HEALTH_KEYWORDS) (lower_str ''unprotected'') = 0"
  "count_matches (low MENTAL_HEALTH_KEYWORDS) (lower_str ''unprotected'') = 0"
  "count_matches MH_SYMPTOM_PATTERNS (lower_str ''unprotected'') = 0"
  by code_simp+

lemma unprotected_rule_scores:
  "fst (rule_based_score ''unprotected'' HIV_RISK_KEYWORDS HIV_SYMPTOM_PATTERNS)
     = to_double 0.7999999999999999"
  "fst (rule_based_score ''unprotected'' MENTAL_HEALTH_KEYWORDS MH_SYMPTOM_PATTERNS) = 0"
  by (simp_all add: rule_score_policy unprotected_counts policy_score_def dadd_def dmul_def
      double_of_nat_def double_values)

text \<open>
  C3.  With pairwise-distinct phrases in every tier and in the symptom list, the score of
  \<open>rule_based_score\<close> is the policy value of the four numbers of phrases that occur in the
  lower-cased text: the highest non-empty tier decides the base, the symptom bonus is capped
  at 0.3 and the sum is clamped at 1, every operation rounded as the floats of the code are.
  Without any match the score is 0 and the category LOW.
\<close>

theorem rule_based_score_policy:
  assumes "distinct (high kws)" and "distinct (medium kws)" and "distinct (low kws)"
    and "distinct symptoms"
  shows "fst (rule_based_score text kws symptoms) =
           policy_score (distinct_matches (high kws) text) (distinct_matches (medium kws) text)
             (distinct_matches (low kws) text) (distinct_matches symptoms text)
         \<and> (distinct_matches (high kws) text = 0 \<and> distinct_matches (medium kws) text = 0
              \<and> distinct_matches (low kws) text = 0 \<and> distinct_matches symptoms text = 0
            \<longrightarrow> fst (rule_based_score text kws symptoms) = 0
                \<and> fst (snd (rule_based_score text kws symptoms)) = ''LOW'')"
proof -
  have eq: "fst (rule_based_score text kws symptoms) =
           policy_score (distinct_matches (high kws) text) (distinct_matches (medium kws) text)
             (distinct_matches (low kws) text) (distinct_matches symptoms text)"
    using assms by (simp only: rule_score_policy count_matches_distinct)
  have cat: "fst (snd (rule_based_score text kws symptoms)) = ''LOW''"
    if "fst (rule_based_score text kws symptoms) = 0"
    using thresholds_positive by (simp only: rule_category that) simp
  show ?thesis
    using eq cat by (auto simp: policy_score_zero)
qed

text \<open>
  The policy on the specification's example sentence, whose score is the float
  0.8999999999999999, and on a text without any phrase.
\<close>

theorem rule_based_score_policy_witness:
  "fst (rule_based_score ''I had unprotected sex with multiple partners, worried about symptoms''
          HIV_RISK_KEYWORDS HIV_SYMPTOM_PATTERNS) = policy_score 2 3 1 0
   \<and> policy_score 2 3 1 0 = to_double 0.8999999999999999
   \<and> fst (rule_based_score ''Hello'' HIV_RISK_KEYWORDS HIV_SYMPTOM_PATTERNS) = 0
   \<and> fst (snd (rule_based_score ''Hello'' HIV_RISK_KEYWORDS HIV_SYMPTOM_PATTERNS)) = ''LOW''"
proof -
  let ?T = "''I had unprotected sex with multiple partners, worried about symptoms''"
  let ?E = "''Hello''"
  have d1: "distinct (high HIV_RISK_KEYWORDS)" by (simp add: HIV_RISK_KEYWORDS_def)
  have d2: "distinct (medium HIV_RISK_KEYWORDS)" by (simp add: HIV_RISK_KEYWORDS_def)
  have d3: "distinct (low HIV_RISK_KEYWORDS)" by (simp add: HIV_RISK_KEYWORDS_def)
  have d4: "distinct HIV_SYMPTOM_PATTERNS" by (simp add: HIV_SYMPTOM_PATTERNS_def)
  have "count_matches (high HIV_RISK_KEYWORDS) (lower_str ?T) = 2" by code_simp
  then have c1: "distinct_matches (high HIV_RISK_KEYWORDS) ?T = 2"
    by (simp only: count_matches_distinct [OF d1])
  have "count_matches (medium HIV_RISK_KEYWORDS) (lower_str ?T) = 3" by code_simp
  then have c2: "distinct_matches (medium HIV_RISK_KEYWORDS) ?T = 3"
    by (simp only: count_matches_distinct [OF d2])
  have "count_matches (low HIV_RISK_KEYWORDS) (lower_str ?T) = 1" by code_simp
  then have c3: "distinct_matches (low HIV_RISK_KEYWORDS) ?T = 1"
    by (simp only: count_matches_distinct [OF d3])
  have "count_matches HIV_SYMPTOM_PATTERNS (lower_str ?T) = 0" by code_simp
  then have c4: "distinct_matches HIV_SYMPTOM_PATTERNS ?T = 0"
    by (simp only: count_matches_distinct [OF d4])
  have "count_matches (high HIV_RISK_KEYWORDS) (lower_str ?E) = 0" by code_simp
  then have e1: "distinct_matches (high HIV_RISK_KEYWORDS) ?E = 0"
    by (simp only: count_matches_distinct [OF d1])
  have "count_matches (medium HIV_RISK_KEYWORDS) (lower_str ?E) = 0" by code_simp
  then have e2: "distinct_matches (medium HIV_RISK_KEYWORDS) ?E = 0"
    by (simp only: count_matches_distinct [OF d2])
  have "count_matches (low HIV_RISK_KEYWORDS) (lower_str ?E) = 0" by code_simp
  then have e3: "distinct_matches (low HIV_RISK_KEYWORDS) ?E = 0"
    by (simp only: count_matches_distinct [OF d3])
  have "count_matches HIV_SYMPTOM_PATTERNS (lower_str ?E) = 0" by code_simp
  then have e4: "distinct_matches HIV_SYMPTOM_PATTERNS ?E = 0"
    by (simp only: count_matches_distinct [OF d4])
  have p: "policy_score 2 3 1 0 = to_double 0.8999999999999999"
    by (simp add: policy_score_def dadd_def dmul_def double_of_nat_def double_values)
  note a = rule_based_score_policy [OF d1 d2 d3 d4, of ?T, unfolded c1 c2 c3 c4]
  note b = rule_based_score_policy [OF d1 d2 d3 d4, of ?E, unfolded e1 e2 e3 e4]
  from conjunct1 [OF a] p conjunct2 [OF b] show ?thesis by simp
qed



text \<open>
  The phrase \<open>STI\<close> occurs in \<open>sti test\<close> when letter case is ignored, yet it is not
  matched; the phrase \<open>sti\<close> is.  Changing the case of a phrase changes the outcome.
\<close>

theorem case_of_phrase_counterexample:
  "occurs (lower_str ''STI'') (lower_str ''sti test'')
   \<and> high_risk_matches (snd (snd (rule_based_score ''sti test''
        \<lparr>high = [''STI''], medium = [], low = []\<rparr> []))) = []
   \<and> fst (rule_based_score ''sti test'' \<lparr>high = [''STI''], medium = [], low = []\<rparr> []) = 0
   \<and> high_risk_matches (snd (snd (rule_based_score ''sti test''
        \<lparr>high = [''sti''], medium = [], low = []\<rparr> []))) = [''sti'']
   \<and> fst (rule_based_score ''sti test'' \<lparr>high = [''sti''], medium = [], low = []\<rparr> [])
     = to_double 0.7999999999999999"
proof -
  have "contains (lower_str ''STI'') (lower_str ''sti test'')" by code_simp
  then have o: "occurs (lower_str ''STI'') (lower_str ''sti test'')"
    by (simp only: contains_iff_occurs)
  have m1: "matches [''STI''] (lower_str ''sti test'') = []" by code_simp
  have m2: "matches [''sti''] (lower_str ''sti test'') = [''sti'']" by code_simp
  have c1: "count_matches [''STI''] (lower_str ''sti test'') = 0" by code_simp
  have c2: "count_matches [''sti''] (lower_str ''sti test'') = 1" by code_simp
  have c0: "count_matches [] t = 0" for t by (simp add: count_matches_def)
  have a: "high_risk_matches (snd (snd (rule_based_score ''sti test''
        \<lparr>high = [''STI''], medium = [], low = []\<rparr> []))) = []"
    by (simp add: rule_details_eq m1)
  have b: "fst (rule_based_score ''sti test''
        \<lparr>high = [''STI''], medium = [], low = []\<rparr> []) = 0"
    by (simp add: rule_score_policy c1 c0 policy_score_zero)
  have c: "high_risk_matches (snd (snd (rule_based_score ''sti test''
        \<lparr>high = [''sti''], medium = [], low = []\<rparr> []))) = [''sti'']"
    by (simp add: rule_details_eq m2)
  have d: "fst (rule_based_score ''sti test''
        \<lparr>high = [''sti''], medium = [], low = []\<rparr> [])
     = to_double 0.7999999999999999"
    by (simp add: rule_score_policy c2 c0 policy_score_def dadd_def dmul_def double_of_nat_def
        double_values)
  from o a b c d show ?thesis by (intro conjI)
qed

lemma matched_iff:
  "occurs p (lower_str text) \<longleftrightarrow> lower_str p = p \<and> occurs (lower_str p) (lower_str text)"
  using occurs_in_lower_fixed [of p "text"] by auto

text \<open>
  C9 (amended).  A phrase is matched exactly when it is written without capitals and occurs
  in the text with letter case ignored, that is, when the phrase as written occurs in the
  lower-cased text.  The whole result depends on the text only through its lower-cased form.
\<close>

theorem phrase_matching_lowered_text:
  "(let d = snd (snd (rule_based_score text kws symptoms)) in
      set (high_risk_matches d) =
        {p \<in> set (high kws). lower_str p = p \<and> occurs (lower_str p) (lower_str text)}
    \<and> set (medium_risk_matches d) =
        {p \<in> set (medium kws). lower_str p = p \<and> occurs (lower_str p) (lower_str text)}
    \<and> set (low_risk_matches d) =
        {p \<in> set (low kws). lower_str p = p \<and> occurs (lower_str p) (lower_str text)}
    \<and> set (symptom_matches d) =
        {p \<in> set symptoms. lower_str p = p \<and> occurs (lower_str p) (lower_str text)})
   \<and> (\<forall>text'. lower_str text' = lower_str text \<longrightarrow>
         rule_based_score text' kws symptoms = rule_based_score text kws symptoms)"
proof -
  have m: "set (matches ps (lower_str text)) =
           {p \<in> set ps. lower_str p = p \<and> occurs (lower_str p) (lower_str text)}" for ps
    unfolding set_matches using matched_iff [of _ "text"] by blast
  have a: "let d = snd (snd (rule_based_score text kws symptoms)) in
      set (high_risk_matches d) =
        {p \<in> set (high kws). lower_str p = p \<and> occurs (lower_str p) (lower_str text)}
    \<and> set (medium_risk_matches d) =
        {p \<in> set (medium kws). lower_str p = p \<and> occurs (lower_str p) (lower_str text)}
    \<and> set (low_risk_matches d) =
        {p \<in> set (low kws). lower_str p = p \<and> occurs (lower_str p) (lower_str text)}
    \<and> set (symptom_matches d) =
        {p \<in> set symptoms. lower_str p = p \<and> occurs (lower_str p) (lower_str text)}"
    by (simp add: rule_based_score_def Let_def m)
  have b: "\<forall>text'. lower_str text' = lower_str text \<longrightarrow>
         rule_based_score text' kws symptoms = rule_based_score text kws symptoms"
    by (simp only: rule_based_score_def) simp
  from a b show ?thesis by (rule conjI)
qed

text \<open>A lower-case and an upper-case phrase against two spellings of one text.\<close>

theorem phrase_matching_lowered_text_witness:
  "set (high_risk_matches (snd (snd (rule_based_score ''Sti Test''
        \<lparr>high = [''sti'', ''STI''], medium = [], low = []\<rparr> [])))) = {''sti''}
   \<and> rule_based_score ''STI TEST'' \<lparr>high = [''sti'', ''STI''], medium = [], low = []\<rparr> []
     = rule_based_score ''Sti Test'' \<lparr>high = [''sti'', ''STI''], medium = [], low = []\<rparr> []"
proof -
  let ?K = "\<lparr>high = [''sti'', ''STI''], medium = [], low = []\<rparr>"
  have l1: "lower_str ''sti'' = ''sti''" by code_simp
  have l2: "lower_str ''STI'' \<noteq> ''STI''" by code_simp
  have "contains (lower_str ''sti'') (lower_str ''Sti Test'')" by code_simp
  then have o: "occurs (lower_str ''sti'') (lower_str ''Sti Test'')"
    by (simp only: contains_iff_occurs)
  have t: "lower_str ''STI TEST'' = lower_str ''Sti Test''" by code_simp
  have s: "{p \<in> set (high ?K). lower_str p = p \<and> occurs (lower_str p) (lower_str ''Sti Test'')}
        = {''sti''}"
    using l1 l2 o by auto
  note main = phrase_matching_lowered_text [of "''Sti Test''" ?K "[]"]
  have one: "set (high_risk_matches (snd (snd (rule_based_score ''Sti Test'' ?K [])))) = {''sti''}"
    using conjunct1 [OF main] s by (simp add: Let_def)
  have two: "rule_based_score ''STI TEST'' ?K [] = rule_based_score ''Sti Test'' ?K []"
    using conjunct2 [OF main] t by blast
  from one two show ?thesis by (rule conjI)
qed


section \<open>Properties of chunking\<close>

lemma isspace_space: "isspace (CHR '' '')"
  by (simp add: isspace_def)

lemma split_acc_words:
  "\<forall>c \<in> set w. \<not> isspace c \<Longrightarrow> \<forall>x \<in> set (split_acc s w). is_word x"
proof (induction s arbitrary: w)
  case Nil
  then show ?case by (simp add: is_word_def)
next
  case (Cons a s)
  show ?case
  proof (cases "isspace a")
    case True
    have "\<forall>x \<in> set (split_acc s []). is_word x"
      by (rule Cons.IH) simp
    with True Cons.prems show ?thesis by (auto simp: is_word_def)
  next
    case False
    have "\<forall>x \<in> set (split_acc s (w @ [a])). is_word x"
      by (rule Cons.IH) (use False Cons.prems in auto)
    with False show ?thesis by simp
  qed
qed

lemma split_ws_words: "\<forall>x \<in> set (split_ws s). is_word x"
  using split_acc_words [of "[]" s] by (simp add: split_ws_def)

lemma split_acc_word: "\<forall>c \<in> set x. \<not> isspace c \<Longrightarrow> split_acc (x @ s) w = split_acc s (w @ x)"
  by (induction x arbitrary: w) auto

lemma split_join: "\<forall>x \<in> set ws. is_word x \<Longrightarrow> split_ws (join '' '' ws) = ws"
proof (induction "'' ''" ws rule: join.induct)
  case 1
  show ?case by (simp add: split_ws_def)
next
  case (2 w)
  then have "split_acc (w @ []) [] = split_acc [] ([] @ w)"
    by (intro split_acc_word) (simp add: is_word_def)
  with 2 show ?case by (simp add: split_ws_def is_word_def)
next
  case (3 w v ws)
  from 3 have w: "is_word w" by simp
  then have "split_acc (w @ '' '' @ join '' '' (v # ws)) [] =
             split_acc ('' '' @ join '' '' (v # ws)) ([] @ w)"
    by (intro split_acc_word) (simp add: is_word_def)
  also have "\<dots> = w # split_acc (join '' '' (v # ws)) []"
    using w by (simp add: isspace_space is_word_def)
  finally show ?case using 3 by (simp add: split_ws_def)
qed

lemma join_nonempty:
  assumes "ws \<noteq> []" and "\<forall>x \<in> set ws. is_word x"
  shows "join '' '' ws \<noteq> []"
proof
  assume "join '' '' ws = []"
  then have "split_ws (join '' '' ws) = []" by (simp add: split_ws_def)
  with split_join [OF assms(2)] assms(1) show False by simp
qed

lemma word_windows_eq: "0 < step \<Longrightarrow> word_windows W step xs = windows W step xs"
proof (induction W step xs rule: windows.induct)
  case (1 W step xs)
  show ?case
  proof (cases "xs = []")
    case True
    with "1.prems" show ?thesis by (simp add: word_windows_def windows.simps)
  next
    case False
    let ?n = "length xs"
    have m: "(?n + step - 1) div step = Suc ((length (drop step xs) + step - 1) div step)"
    proof (cases "step \<le> ?n")
      case True
      define k where "k = length (drop step xs)"
      have "?n + step - 1 = (k + step - 1) + step"
        using True "1.prems" by (simp add: k_def)
      then have "(?n + step - 1) div step = ((k + step - 1) + step) div step"
        by (simp only:)
      also have "\<dots> = Suc ((k + step - 1) div step)"
        using "1.prems" div_add_self2 [of step "k + step - 1"] by (simp only:)
      finally show ?thesis by (simp only: k_def)
    next
      case f: False
      from False have "0 < ?n" by simp
      with f "1.prems" have "step \<le> ?n + step - 1" "?n + step - 1 < 2 * step"
        by linarith+
      then have "(?n + step - 1) div step = 1"
        by (intro div_nat_eqI) simp_all
      with f "1.prems" show ?thesis by simp
    qed
    have IH: "word_windows W step (drop step xs) = windows W step (drop step xs)"
      using 1 False by simp
    have "word_windows W step xs =
          take W xs # map (\<lambda>k. take W (drop (Suc k * step) xs))
                        [0..<(length (drop step xs) + step - 1) div step]"
      unfolding word_windows_def m by (simp add: map_upt_Suc del: upt_Suc)
    also have "map (\<lambda>k. take W (drop (Suc k * step) xs))
                        [0..<(length (drop step xs) + step - 1) div step]
               = word_windows W step (drop step xs)"
      unfolding word_windows_def by (simp add: add.commute)
    finally show ?thesis
      using False "1.prems" IH by (subst windows.simps) simp
  qed
qed

lemma chunk_loop_append:
  "chunk_loop words W idx acc = acc @ chunk_loop words W idx []"
proof (induction idx arbitrary: acc)
  case Nil
  show ?case by simp
next
  case (Cons i idx)
  show ?case
    using Cons.IH [of "acc @ [join '' '' (py_slice words i (i + W))]"]
      Cons.IH [of "[join '' '' (py_slice words i (i + W))]"] Cons.IH [of acc]
    by (simp add: Let_def)
qed

lemma py_slice_window:
  assumes "0 \<le> i" and "0 < W"
  shows "py_slice xs i (i + W) = take (nat W) (drop (nat i) xs)"
proof (cases "nat i \<le> length xs")
  case True
  with assms show ?thesis
    by (simp add: py_slice_def slice_index_def Let_def min_def nat_add_distrib)
next
  case False
  with assms show ?thesis
    by (simp add: py_slice_def slice_index_def Let_def min_def)
qed

lemma windows_mem:
  "win \<in> set (windows W step xs) \<longleftrightarrow>
     xs \<noteq> [] \<and> step \<noteq> 0 \<and> (win = take W xs \<or> win \<in> set (windows W step (drop step xs)))"
  by (subst windows.simps) auto

lemma windows_subset: "win \<in> set (windows W step xs) \<Longrightarrow> set win \<subseteq> set xs"
proof (induction W step xs rule: windows.induct)
  case (1 W step xs)
  from "1.prems" have ne: "\<not> (xs = [] \<or> step = 0)"
    and "win = take W xs \<or> win \<in> set (windows W step (drop step xs))"
    by (simp_all add: windows_mem [of win W step xs])
  then show ?case
  proof (elim disjE)
    assume "win = take W xs"
    then show ?thesis by (simp add: set_take_subset)
  next
    assume "win \<in> set (windows W step (drop step xs))"
    with "1.IH" ne have "set win \<subseteq> set (drop step xs)" by simp
    then show ?thesis using set_drop_subset [of step xs] by blast
  qed
qed

lemma windows_cover:
  "0 < step \<Longrightarrow> step \<le> W \<Longrightarrow> x \<in> set xs \<Longrightarrow> \<exists>win \<in> set (windows W step xs). x \<in> set win"
proof (induction W step xs rule: windows.induct)
  case (1 W step xs)
  from "1.prems" have ne: "xs \<noteq> []" and step: "0 < step" "step \<le> W" by auto
  have "x \<in> set (take step xs) \<or> x \<in> set (drop step xs)"
    using "1.prems"(3) append_take_drop_id [of step xs]
    by (metis Un_iff set_append)
  then show ?case
  proof
    assume "x \<in> set (take step xs)"
    moreover have "take step xs = take step (take W xs)"
      using step by (simp add: min_def)
    ultimately have "x \<in> set (take W xs)"
      using set_take_subset [of step "take W xs"] by auto
    with ne step show ?thesis
      by (intro bexI [of _ "take W xs"]) (simp_all add: windows_mem [of _ W step xs])
  next
    assume "x \<in> set (drop step xs)"
    with "1.IH" ne step obtain win
      where "win \<in> set (windows W step (drop step xs))" "x \<in> set win"
      by auto
    with ne step show ?thesis
      by (intro bexI [of _ win]) (simp_all add: windows_mem [of _ W step xs])
  qed
qed

lemma windows_nonempty:
  "0 < W \<Longrightarrow> win \<in> set (windows W step xs) \<Longrightarrow> win \<noteq> []"
proof (induction W step xs rule: windows.induct)
  case (1 W step xs)
  from "1.prems" have ne: "\<not> (xs = [] \<or> step = 0)"
    and "win = take W xs \<or> win \<in> set (windows W step (drop step xs))"
    by (simp_all add: windows_mem [of win W step xs])
  with "1.IH" "1.prems"(1) show ?case by auto
qed

lemma windows_length:
  "win \<in> set (windows W step xs) \<Longrightarrow> length win \<le> W"
proof (induction W step xs rule: windows.induct)
  case (1 W step xs)
  from "1.prems" have ne: "\<not> (xs = [] \<or> step = 0)"
    and "win = take W xs \<or> win \<in> set (windows W step (drop step xs))"
    by (simp_all add: windows_mem [of win W step xs])
  with "1.IH" show ?case by auto
qed

lemma chunk_loop_range:
  assumes "0 < W" and "\<forall>x \<in> set words. is_word x"
  shows "0 < step \<Longrightarrow> 0 \<le> i \<Longrightarrow> stop = int (length words) \<Longrightarrow>
         chunk_loop words W (range_up i stop step) [] =
           map (join '' '') (windows (nat W) (nat step) (drop (nat i) words))"
proof (induction i stop step rule: range_up.induct)
  case (1 i stop step)
  show ?case
  proof (cases "i < stop")
    case True
    with "1.prems" have ne: "drop (nat i) words \<noteq> []" by simp
    let ?win = "take (nat W) (drop (nat i) words)"
    have win: "py_slice words i (i + W) = ?win"
      using "1.prems" assms(1) by (simp add: py_slice_window)
    have "?win \<noteq> []" using ne assms(1) by simp
    moreover have "\<forall>x \<in> set ?win. is_word x"
      using assms(2) set_take_subset [of "nat W" "drop (nat i) words"]
        set_drop_subset [of "nat i" words] by blast
    ultimately have chunk: "join '' '' ?win \<noteq> []" by (rule join_nonempty)
    have IH: "chunk_loop words W (range_up (i + step) stop step) [] =
           map (join '' '') (windows (nat W) (nat step) (drop (nat (i + step)) words))"
      using "1.IH" True "1.prems" by simp
    have d: "drop (nat step) (drop (nat i) words) = drop (nat (i + step)) words"
      using "1.prems" by (simp add: nat_add_distrib add.commute)
    have w: "windows (nat W) (nat step) (drop (nat i) words) =
             ?win # windows (nat W) (nat step) (drop (nat step) (drop (nat i) words))"
      using ne "1.prems" by (subst windows.simps) simp
    have "chunk_loop words W (range_up i stop step) [] =
          chunk_loop words W (i # range_up (i + step) stop step) []"
      using True "1.prems" by (subst range_up.simps) simp
    also have "\<dots> = [join '' '' ?win] @ chunk_loop words W (range_up (i + step) stop step) []"
      using chunk win chunk_loop_append [of words W _ "[join '' '' ?win]"]
      by (simp add: Let_def)
    also have "\<dots> = map (join '' '') (windows (nat W) (nat step) (drop (nat i) words))"
      by (simp only: w IH d) simp
    finally show ?thesis .
  next
    case False
    with "1.prems" have "drop (nat i) words = []" by simp
    moreover have "range_up i stop step = []"
      using False by (subst range_up.simps) simp
    ultimately show ?thesis by (simp add: windows.simps)
  qed
qed

lemma reassemble_windows:
  "0 < step \<Longrightarrow> step \<le> W \<Longrightarrow> \<forall>x \<in> set xs. is_word x \<Longrightarrow>
   reassemble step (map (join '' '') (windows W step xs)) = xs"
proof (induction W step xs rule: windows.induct)
  case (1 W step xs)
  show ?case
  proof (cases "xs = []")
    case True
    then show ?thesis by (simp add: windows.simps)
  next
    case False
    have w: "windows W step xs = take W xs # windows W step (drop step xs)"
      using False "1.prems" by (subst windows.simps) simp
    have tk: "\<forall>x \<in> set (take W xs). is_word x"
      using "1.prems"(3) set_take_subset [of W xs] by blast
    have sp: "split_ws (join '' '' (take W xs)) = take W xs"
      using tk by (rule split_join)
    show ?thesis
    proof (cases "drop step xs = []")
      case True
      then have "windows W step (drop step xs) = []" by (simp add: windows.simps)
      moreover from True "1.prems" have "take W xs = xs" by simp
      ultimately show ?thesis using sp by (simp add: w)
    next
      case ne: False
      have dr: "\<forall>x \<in> set (drop step xs). is_word x"
        using "1.prems"(3) set_drop_subset [of step xs] by blast
      have IH: "reassemble step (map (join '' '') (windows W step (drop step xs))) = drop step xs"
        using "1.IH" False "1.prems" dr by simp
      obtain d ds where ds: "windows W step (drop step xs) = d # ds"
        using ne "1.prems" by (subst (asm) windows.simps) (simp add: windows.simps)
      have "reassemble step (map (join '' '') (windows W step xs)) =
            take step (split_ws (join '' '' (take W xs)))
              @ reassemble step (map (join '' '') (windows W step (drop step xs)))"
        by (simp add: w ds)
      also have "\<dots> = take step (take W xs) @ drop step xs"
        by (simp only: sp IH)
      also have "\<dots> = xs" using "1.prems" by (simp add: min_def)
      finally show ?thesis .
    qed
  qed
qed

lemma chunk_text_positive_step:
  assumes "0 \<le> overlap" and "overlap < chunk_size"
  shows "chunk_text text chunk_size overlap =
           Inr (map (join '' '')
                 (windows (nat chunk_size) (nat (chunk_size - overlap)) (split_ws text)))"
proof -
  have "0 < chunk_size" "0 < chunk_size - overlap" using assms by simp_all
  then have "chunk_loop (split_ws text) chunk_size
               (range_up 0 (int (length (split_ws text))) (chunk_size - overlap)) [] =
             map (join '' '')
               (windows (nat chunk_size) (nat (chunk_size - overlap)) (drop (nat 0) (split_ws text)))"
    using split_ws_words [of "text"] by (intro chunk_loop_range) simp_all
  then show ?thesis
    using assms by (simp add: chunk_text_def py_range_def Let_def)
qed

text \<open>
  C6.  With \<open>0 \<le> overlap < chunk_size\<close>, \<open>chunk_text\<close> returns the windows of
  \<open>chunk_size\<close> words that start at the successive multiples of \<open>chunk_size - overlap\<close>,
  the last partial window included, each joined by single spaces.  Every chunk is non-empty and
  holds at most \<open>chunk_size\<close> words, every word of the text is in some chunk, and the word
  sequence of the text is rebuilt from the chunks.
\<close>

theorem chunk_text_windows:
  assumes "0 \<le> overlap" and "overlap < chunk_size"
  shows "let words = split_ws text; W = nat chunk_size; step = nat (chunk_size - overlap);
             chunks = map (join '' '') (word_windows W step words)
         in chunk_text text chunk_size overlap = Inr chunks
            \<and> map split_ws chunks = word_windows W step words
            \<and> (\<forall>c \<in> set chunks. c \<noteq> [] \<and> length (split_ws c) \<le> W)
            \<and> (\<forall>w \<in> set words. \<exists>c \<in> set chunks. w \<in> set (split_ws c))
            \<and> reassemble step chunks = words"
proof -
  let ?words = "split_ws text"
  let ?W = "nat chunk_size"
  let ?step = "nat (chunk_size - overlap)"
  let ?wins = "windows ?W ?step ?words"
  let ?chunks = "map (join '' '') ?wins"
  have step: "0 < ?step" "?step \<le> ?W" "0 < ?W" using assms by simp_all
  have ww: "word_windows ?W ?step ?words = ?wins"
    using step(1) by (rule word_windows_eq)
  have words: "\<forall>x \<in> set ?words. is_word x" by (rule split_ws_words)
  have win_words: "\<forall>x \<in> set win. is_word x" if "win \<in> set ?wins" for win
    using windows_subset [OF that] words by blast
  have sp: "split_ws (join '' '' win) = win" if "win \<in> set ?wins" for win
    using win_words [OF that] by (rule split_join)
  have a: "chunk_text text chunk_size overlap = Inr ?chunks"
    using assms by (rule chunk_text_positive_step)
  have b: "map split_ws ?chunks = ?wins"
    using sp by (simp add: map_idI)
  have c: "\<forall>c \<in> set ?chunks. c \<noteq> [] \<and> length (split_ws c) \<le> ?W"
  proof
    fix c assume "c \<in> set ?chunks"
    then obtain win where win: "win \<in> set ?wins" and c: "c = join '' '' win" by auto
    have "win \<noteq> []" using step(3) win by (rule windows_nonempty)
    then have "c \<noteq> []" unfolding c using win_words [OF win] by (rule join_nonempty)
    moreover have "length (split_ws c) \<le> ?W"
      unfolding c sp [OF win] using win by (rule windows_length)
    ultimately show "c \<noteq> [] \<and> length (split_ws c) \<le> ?W" ..
  qed
  have d: "\<forall>w \<in> set ?words. \<exists>c \<in> set ?chunks. w \<in> set (split_ws c)"
  proof
    fix w assume "w \<in> set ?words"
    with step obtain win where win: "win \<in> set ?wins" and w: "w \<in> set win"
      using windows_cover [of ?step ?W w ?words] by blast
    from win have "join '' '' win \<in> set ?chunks" by simp
    moreover have "w \<in> set (split_ws (join '' '' win))" using w sp [OF win] by simp
    ultimately show "\<exists>c \<in> set ?chunks. w \<in> set (split_ws c)" ..
  qed
  have e: "reassemble ?step ?chunks = ?words"
    using step(1,2) words by (rule reassemble_windows)
  show ?thesis
    unfolding Let_def ww by (intro conjI a b c d e)
qed

text \<open>Five words in windows of three with an overlap of one.\<close>

theorem chunk_text_windows_witness:
  "chunk_text ''one two  three four five'' 3 1 = Inr [''one two three'', ''three four five'', ''five'']
   \<and> reassemble 2 [''one two three'', ''three four five'', ''five'']
       = [''one'', ''two'', ''three'', ''four'', ''five'']"
proof -
  let ?T = "''one two  three four five''"
  let ?ws = "[''one'', ''two'', ''three'', ''four'', ''five'']"
  let ?cs = "[''one two three'', ''three four five'', ''five'']"
  have h: "(0::int) \<le> 1" "(1::int) < 3" by simp_all
  have s: "split_ws ?T = ?ws" by code_simp
  have n: "nat (3 - 1) = 2" by simp
  have w: "map (join '' '') (word_windows (nat 3) 2 ?ws) = ?cs" by code_simp
  note t = chunk_text_windows [OF h, of ?T, unfolded Let_def n s]
  from t have a: "chunk_text ?T 3 1 = Inr (map (join '' '') (word_windows (nat 3) 2 ?ws))"
    by (rule conjunct1)
  from t have e: "reassemble 2 (map (join '' '') (word_windows (nat 3) 2 ?ws)) = ?ws"
    by (elim conjE)
  from a e show ?thesis by (simp only: w)
qed

text \<open>
  A non-empty text chunked with an overlap above the window size returns the empty list and
  raises nothing.
\<close>

theorem chunk_text_swapped_sizes_counterexample:
  "''one two three'' \<noteq> [] \<and> (50::int) \<le> 400 \<and> chunk_text ''one two three'' 50 400 = Inr []"
  by code_simp

text \<open>
  C7 (amended).  With \<open>overlap = chunk_size\<close> the call raises the \<open>ValueError\<close> of a zero
  range step; with \<open>overlap > chunk_size\<close> it returns the empty list.
\<close>

theorem chunk_text_no_progress:
  "(overlap = chunk_size \<longrightarrow>
      chunk_text text chunk_size overlap =
        Inl (Exn ''ValueError'' ''range() arg 3 must not be zero''))
   \<and> (chunk_size < overlap \<longrightarrow> chunk_text text chunk_size overlap = Inr [])"
proof -
  have "range_down 0 (int (length (split_ws text))) (chunk_size - overlap) = []"
    by (subst range_down.simps) simp
  then show ?thesis
    by (simp add: chunk_text_def py_range_def Let_def)
qed

text \<open>Both cases on a text of three words.\<close>

theorem chunk_text_no_progress_witness:
  "chunk_text ''one two three'' 400 400 = Inl (Exn ''ValueError'' ''range() arg 3 must not be zero'')
   \<and> chunk_text ''one two three'' 50 400 = Inr []"
  using chunk_text_no_progress [of 400 400 "''one two three''"]
    chunk_text_no_progress [of 400 50 "''one two three''"]
  by simp


section \<open>Properties of the judge and of score fusion\<close>

lemma float_mul_commute: "float_mul a b = float_mul b a"
  by (cases a; cases b) (simp_all add: mult.commute)

lemma float_of_int_zero: "float_of_int 0 = Inr (Finite 0)"
  by (simp add: float_of_int_def to_double_zero)

lemma weighted_llm_score_field:
  assumes "score_field j = Some m"
  shows "weighted_llm j = Inr (float_mul m (Finite (to_double 0.6)))"
proof (cases j)
  case (JObj kvs)
  show ?thesis
  proof (cases "map_of kvs ''score''")
    case None
    with assms JObj have "m = Finite 0" by simp
    with None JObj show ?thesis by (simp add: weighted_llm_def float_of_int_zero)
  next
    case (Some v)
    with assms JObj show ?thesis
      by (cases v) (auto simp: weighted_llm_def split: sum.splits)
  qed
qed (use assms in simp_all)

lemma round3_mono: "x \<le> y \<Longrightarrow> round3 x \<le> round3 y"
  by (simp add: round3_def rhe_mono divide_right_mono)

lemma dround3_mono:
  assumes "x \<le> y" and "0 \<le> round3 y"
  shows "dround3 x \<le> dround3 y"
proof (cases "0 \<le> round3 x")
  case True
  then show ?thesis
    unfolding dround3_def using round3_mono [OF assms(1)] by (rule to_double_mono)
next
  case False
  then have "to_double (round3 x) \<le> 0" by (simp add: to_double_nonpos)
  also have "0 \<le> to_double (round3 y)" using assms(2) by (rule to_double_nonneg)
  finally show ?thesis unfolding dround3_def .
qed

lemma dround3_thresholds:
  "dround3 (to_double 0.7) = to_double 0.7 \<and> dround3 (to_double 0.4) = to_double 0.4"
  by (simp add: dround3_def round3_def double_values rounded_values)

lemma round3_thresholds:
  "0 \<le> round3 (to_double 0.7) \<and> 0 \<le> round3 (to_double 0.4)"
  by (simp add: round3_def double_values rounded_values)

lemma hybrid_score_Inr:
  assumes "weighted_llm (llm_based_score L cl (full_text conv) ''HIV'') = Inr hw"
    and "weighted_llm (llm_based_score L cl (full_text conv) ''Mental Health'') = Inr mw"
  shows "hybrid_score L cl conv = Inr
    \<lparr>hiv_risk =
       \<lparr>final_score = float_round3 (float_add (float_mul (Finite (fst (rule_based_score
            (full_text conv) HIV_RISK_KEYWORDS HIV_SYMPTOM_PATTERNS))) (Finite (to_double 0.4)))
            hw),
        final_category = categorize (float_add (float_mul (Finite (fst (rule_based_score
            (full_text conv) HIV_RISK_KEYWORDS HIV_SYMPTOM_PATTERNS))) (Finite (to_double 0.4)))
            hw),
        rule_based =
          \<lparr>rule_score = dround3 (fst (rule_based_score (full_text conv) HIV_RISK_KEYWORDS
                                       HIV_SYMPTOM_PATTERNS)),
           rule_category = fst (snd (rule_based_score (full_text conv) HIV_RISK_KEYWORDS
                                       HIV_SYMPTOM_PATTERNS)),
           rule_details = snd (snd (rule_based_score (full_text conv) HIV_RISK_KEYWORDS
                                       HIV_SYMPTOM_PATTERNS))\<rparr>,
        llm_based = llm_based_score L cl (full_text conv) ''HIV''\<rparr>,
     mental_health_risk =
       \<lparr>final_score = float_round3 (float_add (float_mul (Finite (fst (rule_based_score
            (full_text conv) MENTAL_HEALTH_KEYWORDS MH_SYMPTOM_PATTERNS)))
            (Finite (to_double 0.4))) mw),
        final_category = categorize (float_add (float_mul (Finite (fst (rule_based_score
            (full_text conv) MENTAL_HEALTH_KEYWORDS MH_SYMPTOM_PATTERNS)))
            (Finite (to_double 0.4))) mw),
        rule_based =
          \<lparr>rule_score = dround3 (fst (rule_based_score (full_text conv) MENTAL_HEALTH_KEYWORDS
                                       MH_SYMPTOM_PATTERNS)),
           rule_category = fst (snd (rule_based_score (full_text conv) MENTAL_HEALTH_KEYWORDS
                                       MH_SYMPTOM_PATTERNS)),
           rule_details = snd (snd (rule_based_score (full_text conv) MENTAL_HEALTH_KEYWORDS
                                       MH_SYMPTOM_PATTERNS))\<rparr>,
        llm_based = llm_based_score L cl (full_text conv) ''Mental Health''\<rparr>\<rparr>"
  using assms by (simp add: hybrid_score_def Let_def split_beta)

lemma hybrid_score_InrD:
  assumes "hybrid_score L cl conv = Inr r"
  shows "\<exists>hw mw. weighted_llm (llm_based_score L cl (full_text conv) ''HIV'') = Inr hw
           \<and> weighted_llm (llm_based_score L cl (full_text conv) ''Mental Health'') = Inr mw"
  using assms by (simp add: hybrid_score_def Let_def split_beta split: sum.splits)

text \<open>The sample judge, and the evaluation of a run on a sample conversation.\<close>

lemma sample_judge:
  "llm_based_score sample_lib (Some (fixed_reply ''{\"score\": 0.6327}'')) t rt
     = JObj [(''score'', JFloat (Finite (to_double 0.6327)))]"
  "llm_based_score sample_lib (Some (fixed_reply ''{\"score\": 0.634}'')) t rt
     = JObj [(''score'', JFloat (Finite (to_double 0.634)))]"
  "llm_based_score sample_lib (Some (fixed_reply ''{\"score\": 0.0125}'')) t rt
     = JObj [(''score'', JFloat (Finite (to_double 0.0125)))]"
proof -
  have s: "strip ''{\"score\": 0.6327}'' = ''{\"score\": 0.6327}''"
    "strip ''{\"score\": 0.634}'' = ''{\"score\": 0.634}''"
    "strip ''{\"score\": 0.0125}'' = ''{\"score\": 0.0125}''"
    by code_simp+
  show "llm_based_score sample_lib (Some (fixed_reply ''{\"score\": 0.6327}'')) t rt
     = JObj [(''score'', JFloat (Finite (to_double 0.6327)))]"
    by (simp add: llm_based_score_def complete_json_def fixed_reply_def sample_lib_def s(1))
  show "llm_based_score sample_lib (Some (fixed_reply ''{\"score\": 0.634}'')) t rt
     = JObj [(''score'', JFloat (Finite (to_double 0.634)))]"
    by (simp add: llm_based_score_def complete_json_def fixed_reply_def sample_lib_def s(2))
  show "llm_based_score sample_lib (Some (fixed_reply ''{\"score\": 0.0125}'')) t rt
     = JObj [(''score'', JFloat (Finite (to_double 0.0125)))]"
    by (simp add: llm_based_score_def complete_json_def fixed_reply_def sample_lib_def s(3))
qed

lemma full_text_sample: "full_text (sample_conversation t) = t"
  by (simp add: sample_conversation_def)

lemma weighted_llm_float:
  "weighted_llm (JObj [(''score'', JFloat x)]) = Inr (float_mul x (Finite (to_double 0.6)))"
  by (simp add: weighted_llm_def)

lemma weighted_llm_unconfigured:
  "weighted_llm (llm_based_score L None t rt) = Inr (Finite 0)"
  by (simp add: weighted_llm_def llm_based_score_def to_double_zero round_double_def)

lemmas float_evaluation =
  round_double_unit dround3_def round3_def policy_score_def dadd_def dmul_def
  double_of_nat_def double_values rounded_values

text \<open>
  C1.  When each judge result carries a numeric \<open>score\<close> or none, \<open>hybrid_score\<close> returns
  a record whose \<open>final_score\<close> is, in both domains, the rounding to three decimals of
  0.4 times the rule score plus 0.6 times the judge's score, the latter being 0 when absent;
  products, sum and rounding are those of floats.
\<close>

theorem hybrid_score_fusion:
  assumes "score_field (llm_based_score L cl (full_text conv) ''HIV'') = Some hiv_model"
    and "score_field (llm_based_score L cl (full_text conv) ''Mental Health'') = Some mh_model"
  shows "\<exists>r. hybrid_score L cl conv = Inr r
     \<and> final_score (hiv_risk r) =
         float_round3 (float_add
           (float_mul (Finite (to_double 0.4))
              (Finite (fst (rule_based_score (full_text conv) HIV_RISK_KEYWORDS
                              HIV_SYMPTOM_PATTERNS))))
           (float_mul (Finite (to_double 0.6)) hiv_model))
     \<and> final_score (mental_health_risk r) =
         float_round3 (float_add
           (float_mul (Finite (to_double 0.4))
              (Finite (fst (rule_based_score (full_text conv) MENTAL_HEALTH_KEYWORDS
                              MH_SYMPTOM_PATTERNS))))
           (float_mul (Finite (to_double 0.6)) mh_model))"
proof -
  note h = hybrid_score_Inr [OF weighted_llm_score_field [OF assms(1)]
      weighted_llm_score_field [OF assms(2)]]
  have c: "float_mul (Finite (to_double 0.4)) x = float_mul x (Finite (to_double 0.4))"
    "float_mul (Finite (to_double 0.6)) x = float_mul x (Finite (to_double 0.6))" for x
    by (rule float_mul_commute)+
  show ?thesis
    unfolding h c by simp
qed

text \<open>
  The text \<open>unprotected\<close>, whose rule scores are 0.7999999999999999 and 0, with a judge that
  answers 0.0125 in both domains: the reported scores are 0.328 and 0.007.
\<close>

theorem hybrid_score_fusion_witness:
  "\<exists>r. hybrid_score sample_lib (Some (fixed_reply ''{\"score\": 0.0125}''))
          (sample_conversation ''unprotected'') = Inr r
     \<and> final_score (hiv_risk r) = Finite (to_double 0.328)
     \<and> final_score (mental_health_risk r) = Finite (to_double 0.007)"
proof -
  let ?c = "sample_conversation ''unprotected''"
  let ?cl = "Some (fixed_reply ''{\"score\": 0.0125}'')"
  have a: "score_field (llm_based_score sample_lib ?cl (full_text ?c) ''HIV'')
             = Some (Finite (to_double 0.0125))"
    by (simp add: sample_judge)
  have b: "score_field (llm_based_score sample_lib ?cl (full_text ?c) ''Mental Health'')
             = Some (Finite (to_double 0.0125))"
    by (simp add: sample_judge)
  have h: "float_round3 (float_add
           (float_mul (Finite (to_double 0.4))
              (Finite (fst (rule_based_score (full_text ?c) HIV_RISK_KEYWORDS
                              HIV_SYMPTOM_PATTERNS))))
           (float_mul (Finite (to_double 0.6)) (Finite (to_double 0.0125))))
         = Finite (to_double 0.328)"
    by (simp add: full_text_sample unprotected_rule_scores float_evaluation)
  have m: "float_round3 (float_add
           (float_mul (Finite (to_double 0.4))
              (Finite (fst (rule_based_score (full_text ?c) MENTAL_HEALTH_KEYWORDS
                              MH_SYMPTOM_PATTERNS))))
           (float_mul (Finite (to_double 0.6)) (Finite (to_double 0.0125))))
         = Finite (to_double 0.007)"
    by (simp add: full_text_sample unprotected_rule_scores float_evaluation)
  show ?thesis
    using hybrid_score_fusion [OF a b] unfolding h m .
qed

text \<open>
  Two runs on the same text report the same \<open>final_score\<close> 0.7 for the HIV domain, one
  with category MEDIUM (fused score 0.69962) and one with HIGH (fused score 0.7004).  A run
  without a judge reports 0.4 with category LOW (fused score 0.39999999999999997).
\<close>

theorem final_category_rounding_counterexample:
  "map_sum id (score_and_category \<circ> hiv_risk)
     (hybrid_score sample_lib (Some (fixed_reply ''{\"score\": 0.6327}''))
        (sample_conversation ''unprotected'')) = Inr (Finite (to_double 0.7), ''MEDIUM'')
   \<and> map_sum id (score_and_category \<circ> hiv_risk)
     (hybrid_score sample_lib (Some (fixed_reply ''{\"score\": 0.634}''))
        (sample_conversation ''unprotected'')) = Inr (Finite (to_double 0.7), ''HIGH'')
   \<and> map_sum id (score_and_category \<circ> hiv_risk)
     (hybrid_score sample_lib None
        (sample_conversation ''unprotected sex with multiple partners and fever''))
       = Inr (Finite (to_double 0.4), ''LOW'')"
proof -
  let ?c = "sample_conversation ''unprotected''"
  let ?d = "sample_conversation ''unprotected sex with multiple partners and fever''"
  let ?a = "Some (fixed_reply ''{\"score\": 0.6327}'')"
  let ?b = "Some (fixed_reply ''{\"score\": 0.634}'')"
  have wa: "weighted_llm (llm_based_score sample_lib ?a (full_text ?c) rt)
              = Inr (float_mul (Finite (to_double 0.6327)) (Finite (to_double 0.6)))" for rt
    by (simp only: sample_judge weighted_llm_float)
  have wb: "weighted_llm (llm_based_score sample_lib ?b (full_text ?c) rt)
              = Inr (float_mul (Finite (to_double 0.634)) (Finite (to_double 0.6)))" for rt
    by (simp only: sample_judge weighted_llm_float)
  have counts:
    "count_matches (high HIV_RISK_KEYWORDS)
       (lower_str ''unprotected sex with multiple partners and fever'') = 2"
    "count_matches HIV_SYMPTOM_PATTERNS
       (lower_str ''unprotected sex with multiple partners and fever'') = 1"
    by code_simp+
  have rule: "fst (rule_based_score ''unprotected sex with multiple partners and fever''
                HIV_RISK_KEYWORDS HIV_SYMPTOM_PATTERNS) = to_double 0.9999999999999999"
    by (simp add: rule_score_policy counts float_evaluation)
  have one: "map_sum id (score_and_category \<circ> hiv_risk) (hybrid_score sample_lib ?a ?c)
               = Inr (Finite (to_double 0.7), ''MEDIUM'')"
    by (simp add: hybrid_score_Inr [OF wa wa] score_and_category_def categorize_def
        full_text_sample unprotected_rule_scores float_evaluation)
  have two: "map_sum id (score_and_category \<circ> hiv_risk) (hybrid_score sample_lib ?b ?c)
               = Inr (Finite (to_double 0.7), ''HIGH'')"
    by (simp add: hybrid_score_Inr [OF wb wb] score_and_category_def categorize_def
        full_text_sample unprotected_rule_scores float_evaluation)
  have three: "map_sum id (score_and_category \<circ> hiv_risk) (hybrid_score sample_lib None ?d)
               = Inr (Finite (to_double 0.4), ''LOW'')"
    by (simp add: hybrid_score_Inr [OF weighted_llm_unconfigured weighted_llm_unconfigured]
        score_and_category_def categorize_def full_text_sample rule float_evaluation)
  from one two three show ?thesis by (intro conjI)
qed

lemma categorize_cases:
  "(categorize u = ''HIGH'' \<longleftrightarrow> float_ge u (Finite (to_double 0.7)))
   \<and> (categorize u = ''MEDIUM'' \<longleftrightarrow>
        float_ge u (Finite (to_double 0.4)) \<and> \<not> float_ge u (Finite (to_double 0.7)))
   \<and> (categorize u = ''LOW'' \<longleftrightarrow> \<not> float_ge u (Finite (to_double 0.4)))"
proof -
  have "to_double 0.4 \<le> to_double 0.7" by (simp add: double_values)
  then have "float_ge u (Finite (to_double 0.4))" if "float_ge u (Finite (to_double 0.7))"
    using that by (cases u) simp_all
  then show ?thesis by (auto simp: categorize_def)
qed

lemma reported_above:
  assumes "float_lt (Finite (to_double c)) (float_round3 u)"
    and "dround3 (to_double c) = to_double c" and "0 \<le> round3 (to_double c)"
  shows "float_ge u (Finite (to_double c))"
proof (cases u)
  case (Finite x)
  have "to_double c \<le> x"
  proof (rule ccontr)
    assume "\<not> to_double c \<le> x"
    then have "x \<le> to_double c" by simp
    then have "dround3 x \<le> dround3 (to_double c)" using assms(3) by (rule dround3_mono)
    with assms Finite show False by simp
  qed
  with Finite show ?thesis by simp
qed (use assms in simp_all)

lemma reported_below:
  assumes "float_lt (float_round3 u) (Finite (to_double c))"
    and "dround3 (to_double c) = to_double c" and "0 \<le> round3 (to_double c)"
  shows "\<not> float_ge u (Finite (to_double c))"
proof (cases u)
  case (Finite x)
  have "\<not> to_double c \<le> x"
  proof
    assume "to_double c \<le> x"
    moreover from this have "0 \<le> round3 x"
      using assms(3) round3_mono [of "to_double c" x] by simp
    ultimately have "dround3 (to_double c) \<le> dround3 x" by (rule dround3_mono)
    with assms Finite show False by simp
  qed
  with Finite show ?thesis by simp
qed (use assms in simp_all)

text \<open>
  C2 (amended).  In every record \<open>hybrid_score\<close> returns, the category of a domain is the
  threshold function of the fused score \<open>u\<close> before rounding, and \<open>final_score\<close> is \<open>u\<close>
  rounded: HIGH when \<open>u >= 0.7\<close>, MEDIUM when \<open>u >= 0.4\<close> and not \<open>u >= 0.7\<close>, LOW when not
  \<open>u >= 0.4\<close>, which is the case of a smaller score and of one that is not a number.  Read
  from the reported score: above 0.7 the category is HIGH, strictly between 0.4 and 0.7 it
  is MEDIUM, below 0.4 it is LOW.
\<close>

theorem final_category_thresholds:
  assumes "hybrid_score L cl conv = Inr r"
    and "(e, kws, syms) = (hiv_risk r, HIV_RISK_KEYWORDS, HIV_SYMPTOM_PATTERNS)
       \<or> (e, kws, syms) = (mental_health_risk r, MENTAL_HEALTH_KEYWORDS, MH_SYMPTOM_PATTERNS)"
  shows "\<exists>w. weighted_llm (llm_based e) = Inr w
     \<and> (let u = float_add (float_mul (Finite (fst (rule_based_score (full_text conv) kws syms)))
                             (Finite (to_double 0.4))) w in
          final_score e = float_round3 u
        \<and> (final_category e = ''HIGH'' \<longleftrightarrow> float_ge u (Finite (to_double 0.7)))
        \<and> (final_category e = ''MEDIUM'' \<longleftrightarrow>
             float_ge u (Finite (to_double 0.4)) \<and> \<not> float_ge u (Finite (to_double 0.7)))
        \<and> (final_category e = ''LOW'' \<longleftrightarrow> \<not> float_ge u (Finite (to_double 0.4))))
     \<and> (float_lt (Finite (to_double 0.7)) (final_score e) \<longrightarrow> final_category e = ''HIGH'')
     \<and> (float_lt (Finite (to_double 0.4)) (final_score e)
          \<and> float_lt (final_score e) (Finite (to_double 0.7))
        \<longrightarrow> final_category e = ''MEDIUM'')
     \<and> (float_lt (final_score e) (Finite (to_double 0.4)) \<longrightarrow> final_category e = ''LOW'')"
proof -
  from hybrid_score_InrD [OF assms(1)] obtain hw mw
    where hw: "weighted_llm (llm_based_score L cl (full_text conv) ''HIV'') = Inr hw"
      and mw: "weighted_llm (llm_based_score L cl (full_text conv) ''Mental Health'') = Inr mw"
    by blast
  note r = assms(1) [unfolded hybrid_score_Inr [OF hw mw], simplified, symmetric]
  define w where "w = (if e = hiv_risk r then hw else mw)"
  define u where "u = float_add (float_mul (Finite (fst (rule_based_score (full_text conv)
                         kws syms))) (Finite (to_double 0.4))) w"
  have ew: "weighted_llm (llm_based e) = Inr w"
    and s: "final_score e = float_round3 u" and c: "final_category e = categorize u"
    using assms(2) hw mw unfolding u_def w_def by (auto simp: r)
  note t7 = conjunct1 [OF dround3_thresholds]
  note t4 = conjunct2 [OF dround3_thresholds]
  note p7 = conjunct1 [OF round3_thresholds]
  note p4 = conjunct2 [OF round3_thresholds]
  note cat = categorize_cases [of u, folded c]
  have first: "let u = float_add (float_mul (Finite (fst (rule_based_score (full_text conv)
                         kws syms))) (Finite (to_double 0.4))) w in
          final_score e = float_round3 u
        \<and> (final_category e = ''HIGH'' \<longleftrightarrow> float_ge u (Finite (to_double 0.7)))
        \<and> (final_category e = ''MEDIUM'' \<longleftrightarrow>
             float_ge u (Finite (to_double 0.4)) \<and> \<not> float_ge u (Finite (to_double 0.7)))
        \<and> (final_category e = ''LOW'' \<longleftrightarrow> \<not> float_ge u (Finite (to_double 0.4)))"
    unfolding Let_def u_def [symmetric] using s cat by (intro conjI) blast+
  have high: "float_lt (Finite (to_double 0.7)) (final_score e) \<longrightarrow> final_category e = ''HIGH''"
    using reported_above [of "0.7" u, OF _ t7 p7] cat unfolding s by blast
  have med: "float_lt (Finite (to_double 0.4)) (final_score e)
          \<and> float_lt (final_score e) (Finite (to_double 0.7))
        \<longrightarrow> final_category e = ''MEDIUM''"
    using reported_above [of "0.4" u, OF _ t4 p4] reported_below [of u "0.7", OF _ t7 p7] cat
    unfolding s by blast
  have low: "float_lt (final_score e) (Finite (to_double 0.4)) \<longrightarrow> final_category e = ''LOW''"
    using reported_below [of u "0.4", OF _ t4 p4] cat unfolding s by blast
  from ew first high med low show ?thesis by blast
qed

text \<open>A run whose mental-health score is 0.38: the theorem gives the category LOW.\<close>

theorem final_category_thresholds_witness:
  "\<exists>r. hybrid_score sample_lib (Some (fixed_reply ''{\"score\": 0.6327}''))
          (sample_conversation ''unprotected'') = Inr r
      \<and> final_score (mental_health_risk r) = Finite (to_double 0.38)
      \<and> final_category (mental_health_risk r) = ''LOW''"
proof -
  let ?c = "sample_conversation ''unprotected''"
  let ?a = "Some (fixed_reply ''{\"score\": 0.6327}'')"
  have wa: "weighted_llm (llm_based_score sample_lib ?a (full_text ?c) rt)
              = Inr (float_mul (Finite (to_double 0.6327)) (Finite (to_double 0.6)))" for rt
    by (simp only: sample_judge weighted_llm_float)
  obtain r where r: "hybrid_score sample_lib ?a ?c = Inr r"
    using hybrid_score_Inr [OF wa wa] by blast
  from r have fs: "final_score (mental_health_risk r) = Finite (to_double 0.38)"
    unfolding hybrid_score_Inr [OF wa wa]
    by (auto simp: full_text_sample unprotected_rule_scores float_evaluation)
  have lt: "float_lt (Finite (to_double 0.38)) (Finite (to_double 0.4))"
    by (simp add: double_values)
  from final_category_thresholds [OF r, of "mental_health_risk r" MENTAL_HEALTH_KEYWORDS
      MH_SYMPTOM_PATTERNS]
  have "float_lt (final_score (mental_health_risk r)) (Finite (to_double 0.4)) \<longrightarrow>
        final_category (mental_health_risk r) = ''LOW''"
    by blast
  with fs lt have "final_category (mental_health_risk r) = ''LOW''" by simp
  with r fs show ?thesis by blast
qed

text \<open>
  C4.  Without a client \<open>llm_based_score\<close> returns the UNKNOWN assessment, which has five
  members and no \<open>urgent_flags\<close>; the ERROR assessment of a failed call has six.
\<close>

theorem llm_based_score_unconfigured:
  "llm_based_score L None conversation_text risk_type =
     JObj [(''score'', JFloat (Finite 0)), (''category'', JStr ''UNKNOWN''),
           (''reasoning'', JStr ''API key not configured''),
           (''risk_factors'', JArr []), (''protective_factors'', JArr [])]
   \<and> json_keys (llm_based_score L None conversation_text risk_type) =
       [''score'', ''category'', ''reasoning'', ''risk_factors'', ''protective_factors'']
   \<and> ''urgent_flags'' \<notin> set (json_keys (llm_based_score L None conversation_text risk_type))"
  by (simp add: llm_based_score_def json_keys_def to_double_zero)

text \<open>The degraded assessment of a call that fails with \<open>e\<close>.\<close>

lemma llm_based_score_failure:
  assumes "complete_json L c \<lparr>model = LLM_MODEL, temperature = to_double 0.3, max_tokens = 1000,
             content = llm_prompt risk_type conversation_text\<rparr> = Inl e"
  shows "llm_based_score L (Some c) conversation_text risk_type =
     JObj [(''score'', JFloat (Finite 0)), (''category'', JStr ''ERROR''),
           (''reasoning'', JStr (''Analysis error: '' @ exn_str e)),
           (''risk_factors'', JArr []), (''protective_factors'', JArr []),
           (''urgent_flags'', JBool False)]"
  using assms by (simp add: llm_based_score_def to_double_zero)


section \<open>Properties of the recommendation generator and the analyzer\<close>

lemma sample_assessment_is_output:
  "hybrid_score sample_lib (Some (fixed_reply ''{\"score\": 0.6327}''))
        (sample_conversation ''unprotected'') = Inr sample_assessment"
proof -
  let ?c = "sample_conversation ''unprotected''"
  let ?a = "Some (fixed_reply ''{\"score\": 0.6327}'')"
  have wa: "weighted_llm (llm_based_score sample_lib ?a (full_text ?c) rt)
              = Inr (float_mul (Finite (to_double 0.6327)) (Finite (to_double 0.6)))" for rt
    by (simp only: sample_judge weighted_llm_float)
  have m: "matches (high HIV_RISK_KEYWORDS) (lower_str ''unprotected'') = [''unprotected'']"
    "matches (medium HIV_RISK_KEYWORDS) (lower_str ''unprotected'') = []"
    "matches (low HIV_RISK_KEYWORDS) (lower_str ''unprotected'') = [''protected'']"
    "matches HIV_SYMPTOM_PATTERNS (lower_str ''unprotected'') = []"
    "matches (high MENTAL_HEALTH_KEYWORDS) (lower_str ''unprotected'') = []"
    "matches (medium MENTAL_HEALTH_KEYWORDS) (lower_str ''unprotected'') = []"
    "matches (low MENTAL_HEALTH_KEYWORDS) (lower_str ''unprotected'') = []"
    "matches MH_SYMPTOM_PATTERNS (lower_str ''unprotected'') = []"
    by code_simp+
  show ?thesis
    by (simp add: hybrid_score_Inr [OF wa wa] sample_assessment_def full_text_sample
        rule_category rule_details_eq m unprotected_rule_scores sample_judge categorize_def
        float_evaluation)
qed

text \<open>
  With a configured client and an embedder that raises, \<open>generate_recommendation\<close> raises:
  the retrieval calls stand before the \<open>try\<close> block.
\<close>

theorem retrieval_failure_counterexample:
  "fst (generate_recommendation sample_lib failing_rag
          (Some (fixed_reply ''{\"score\": 0.6327}'')) built_recommender sample_assessment
          ''unprotected'') = Inl (Exn ''RuntimeError'' ''CUDA out of memory'')"
  by code_simp

text \<open>A failed call and an unparsable answer are both failures of the \<open>try\<close> body.\<close>

lemma complete_json_failures:
  "(c req = Inl e \<longrightarrow> complete_json L c req = Inl e)
   \<and> (c req = Inr (Some s) \<and> json_loads L (re_sub_fences L (strip s)) = Inl e
        \<longrightarrow> complete_json L c req = Inl e)"
  by (simp add: complete_json_def)

text \<open>
  C5 (amended).  Without a client the result is the \<open>API not configured\<close> recommendation and
  the recommender is untouched, whatever the retriever would do.  With a client, once both
  retrievals have returned and both risk-factor lists are joined, nothing is raised: a failure
  \<open>e\<close> of the completion or of parsing gives a recommendation whose three fields end in
  \<open>str(e)\<close>.
\<close>

theorem generate_recommendation_degrades:
  "generate_recommendation L R None st ra conversation_text =
     (Inr (JObj [(''hiv_recommendation'', JStr ''API not configured''),
                 (''mh_recommendation'', JStr ''API not configured''),
                 (''integrated_plan'', JStr ''API not configured'')]), st)
   \<and> (retrieve_relevant_chunks R st
         (''HIV risk '' @ final_category (hiv_risk ra) @ '' testing PrEP treatment'') 3
         = (Inr hiv_context, st1)
       \<and> retrieve_relevant_chunks R st1
         (''mental health '' @ final_category (mental_health_risk ra)
            @ '' counseling treatment'') 3
         = (Inr mh_context, st2)
       \<and> join_factors (llm_based (hiv_risk ra)) = Inr hiv_factors
       \<and> join_factors (llm_based (mental_health_risk ra)) = Inr mh_factors
      \<longrightarrow> (\<exists>j. generate_recommendation L R (Some c) st ra conversation_text = (Inr j, st2))
        \<and> (\<forall>e. complete_json L c
                   (rag_request L ra hiv_factors mh_factors hiv_context mh_context
                      conversation_text) = Inl e
              \<longrightarrow> generate_recommendation L R (Some c) st ra conversation_text =
                    (Inr (JObj
                       [(''hiv_recommendation'',
                         JStr (''Error generating recommendation: '' @ exn_str e)),
                        (''mh_recommendation'',
                         JStr (''Error generating recommendation: '' @ exn_str e)),
                        (''integrated_plan'',
                         JStr (''Error generating plan: '' @ exn_str e))]), st2)))"
  by (auto simp: generate_recommendation_def Let_def split: sum.splits)

text \<open>No client, and a client whose answer is not JSON.\<close>

theorem generate_recommendation_degrades_witness:
  "generate_recommendation sample_lib sample_rag None built_recommender sample_assessment
     ''unprotected'' =
     (Inr (JObj [(''hiv_recommendation'', JStr ''API not configured''),
                 (''mh_recommendation'', JStr ''API not configured''),
                 (''integrated_plan'', JStr ''API not configured'')]), built_recommender)
   \<and> generate_recommendation sample_lib sample_rag (Some (fixed_reply ''I cannot help.''))
       built_recommender sample_assessment ''unprotected'' =
     (Inr (JObj
        [(''hiv_recommendation'',
          JStr (''Error generating recommendation: ''
                  @ ''Expecting value: line 1 column 1 (char 0)'')),
         (''mh_recommendation'',
          JStr (''Error generating recommendation: ''
                  @ ''Expecting value: line 1 column 1 (char 0)'')),
         (''integrated_plan'',
          JStr (''Error generating plan: '' @ ''Expecting value: line 1 column 1 (char 0)''))]),
      built_recommender)"
proof -
  let ?ctx = "[''HIV testing is recommended for all sexually active individuals.'']"
  let ?e = "Exn ''JSONDecodeError'' ''Expecting value: line 1 column 1 (char 0)''"
  note t = generate_recommendation_degrades [where L = sample_lib and R = sample_rag
      and st = built_recommender and ra = sample_assessment
      and conversation_text = "''unprotected''" and ?hiv_context = ?ctx
      and ?mh_context = ?ctx and ?st1.0 = built_recommender and ?st2.0 = built_recommender
      and hiv_factors = "''None identified''" and mh_factors = "''None identified''"
      and c = "fixed_reply ''I cannot help.''"]
  have r1: "retrieve_relevant_chunks sample_rag built_recommender
         (''HIV risk '' @ final_category (hiv_risk sample_assessment)
            @ '' testing PrEP treatment'') 3 = (Inr ?ctx, built_recommender)"
    by code_simp
  have r2: "retrieve_relevant_chunks sample_rag built_recommender
         (''mental health '' @ final_category (mental_health_risk sample_assessment)
            @ '' counseling treatment'') 3 = (Inr ?ctx, built_recommender)"
    by code_simp
  have j1: "join_factors (llm_based (hiv_risk sample_assessment)) = Inr ''None identified''"
    by code_simp
  have j2: "join_factors (llm_based (mental_health_risk sample_assessment))
              = Inr ''None identified''"
    by code_simp
  have cj: "complete_json sample_lib (fixed_reply ''I cannot help.'')
              (rag_request sample_lib sample_assessment ''None identified'' ''None identified''
                 ?ctx ?ctx ''unprotected'') = Inl ?e"
    by (simp add: complete_json_def fixed_reply_def sample_lib_def strip_def isspace_def)
  from t have a: "generate_recommendation sample_lib sample_rag None built_recommender
      sample_assessment ''unprotected'' =
     (Inr (JObj [(''hiv_recommendation'', JStr ''API not configured''),
                 (''mh_recommendation'', JStr ''API not configured''),
                 (''integrated_plan'', JStr ''API not configured'')]), built_recommender)"
    by (rule conjunct1)
  note b = mp [OF conjunct2 [OF t], OF conjI [OF r1 conjI [OF r2 conjI [OF j1 j2]]]]
  note c = mp [OF spec [OF conjunct2 [OF b]], OF cj]
  from a c show ?thesis by (simp only: exn.sel) 
qed

text \<open>
  C10.  Two conversations with the same \<open>full_text\<close> get the same result of
  \<open>hybrid_score\<close>, the same judge results and, from \<open>analyze_conversation\<close>, the same
  risk assessment, recommendations, preview and recommender state; with equal message counts
  the whole analysis is the same.
\<close>

theorem conversation_only_full_text:
  assumes "full_text c1 = full_text c2"
  shows "hybrid_score L cl c1 = hybrid_score L cl c2
     \<and> llm_based_score L cl (full_text c1) risk_type
         = llm_based_score L cl (full_text c2) risk_type
     \<and> analyze_conversation L R cl st (c1\<lparr>message_count := n\<rparr>)
         = analyze_conversation L R cl st (c2\<lparr>message_count := n\<rparr>)
     \<and> map_sum id (\<lambda>a. (risk_assessment_part a, recommendations a,
                          text_preview (conversation_part a)))
         (fst (analyze_conversation L R cl st c1))
       = map_sum id (\<lambda>a. (risk_assessment_part a, recommendations a,
                            text_preview (conversation_part a)))
         (fst (analyze_conversation L R cl st c2))
     \<and> snd (analyze_conversation L R cl st c1) = snd (analyze_conversation L R cl st c2)"
proof -
  have h: "hybrid_score L cl c = hybrid_score L cl c'" if "full_text c = full_text c'" for c c'
    unfolding hybrid_score_def that by (rule refl)
  have a: "analyze_conversation L R cl st c = analyze_conversation L R cl st c'"
    if "full_text c = full_text c'" "message_count c = message_count c'" for c c'
    unfolding analyze_conversation_def that h [OF that(1)] by (rule refl)
  have m: "map_sum id (\<lambda>a. (risk_assessment_part a, recommendations a,
                          text_preview (conversation_part a)))
         (fst (analyze_conversation L R cl st (c\<lparr>message_count := k\<rparr>)))
       = map_sum id (\<lambda>a. (risk_assessment_part a, recommendations a,
                            text_preview (conversation_part a)))
         (fst (analyze_conversation L R cl st c))
       \<and> snd (analyze_conversation L R cl st (c\<lparr>message_count := k\<rparr>))
           = snd (analyze_conversation L R cl st c)" for c k
  proof -
    have hk: "hybrid_score L cl (c\<lparr>message_count := k\<rparr>) = hybrid_score L cl c"
      by (rule h) simp
    show ?thesis
    proof (cases "hybrid_score L cl c")
      case (Inl e)
      then show ?thesis by (simp add: analyze_conversation_def hk)
    next
      case (Inr rs)
      obtain res st1 where g: "generate_recommendation L R cl st rs (full_text c) = (res, st1)"
        by (cases "generate_recommendation L R cl st rs (full_text c)")
      show ?thesis
        by (cases res) (simp_all add: analyze_conversation_def hk Inr g)
    qed
  qed
  have p: "map_sum id (\<lambda>a. (risk_assessment_part a, recommendations a,
                          text_preview (conversation_part a)))
         (fst (analyze_conversation L R cl st c1))
       = map_sum id (\<lambda>a. (risk_assessment_part a, recommendations a,
                            text_preview (conversation_part a)))
         (fst (analyze_conversation L R cl st c2))
       \<and> snd (analyze_conversation L R cl st c1) = snd (analyze_conversation L R cl st c2)"
  proof -
    have "analyze_conversation L R cl st c1
          = analyze_conversation L R cl st (c2\<lparr>message_count := message_count c1\<rparr>)"
      by (rule a) (simp_all add: assms)
    then show ?thesis by (simp only: m)
  qed
  have n: "analyze_conversation L R cl st (c1\<lparr>message_count := n\<rparr>)
         = analyze_conversation L R cl st (c2\<lparr>message_count := n\<rparr>)"
    by (rule a) (simp_all add: assms)
  have l: "llm_based_score L cl (full_text c1) risk_type
         = llm_based_score L cl (full_text c2) risk_type"
    by (simp only: assms)
  from h [OF assms] l n p show ?thesis by (intro conjI) blast+
qed


text \<open>One message against two, with different user text and message count.\<close>

theorem conversation_only_full_text_witness:
  "hybrid_score sample_lib None (sample_conversation ''I feel hopeless'')
     = hybrid_score sample_lib None split_conversation
   \<and> user_text (sample_conversation ''I feel hopeless'') \<noteq> user_text split_conversation
   \<and> message_count (sample_conversation ''I feel hopeless'') \<noteq> message_count split_conversation"
proof -
  have f: "full_text (sample_conversation ''I feel hopeless'') = full_text split_conversation"
    by (simp add: sample_conversation_def split_conversation_def)
  from conversation_only_full_text [OF f, of sample_lib None]
  have "hybrid_score sample_lib None (sample_conversation ''I feel hopeless'')
     = hybrid_score sample_lib None split_conversation"
    by (rule conjunct1)
  then show ?thesis
    by (simp add: sample_conversation_def split_conversation_def)
qed

end
